theory Spec2Isabelle
  imports Complex_Main "HOL-Library.AList"
begin

section \<open>Python values\<close>

text \<open>
  The client handles three kinds of Python values: what \<^verbatim>\<open>resp.json()\<close> returns
  (\<^verbatim>\<open>None\<close>, booleans, numbers, strings, lists, dicts), \<^verbatim>\<open>datetime\<close> objects, and the
  dicts it builds from them. They are one datatype. JSON integers and floats are both
  \<open>PNum\<close> (the code only tests them for truth and passes them on); a dict is an
  association list in insertion order.
\<close>

text \<open>
  A \<^verbatim>\<open>datetime\<close>: the date as its proleptic Gregorian ordinal (\<^verbatim>\<open>date.toordinal()\<close>,
  1 is 0001-01-01 and 3652059 is 9999-12-31), the time of day in its fields, and
  \<^verbatim>\<open>tzinfo\<close> as a fixed UTC offset in seconds (\<open>None\<close> for a naive datetime).
\<close>

record datetime =
  ordinal :: int
  hour :: int
  minute :: int
  second :: int
  microsecond :: int
  tzinfo :: "int option"

datatype pyval =
    PNone
  | PBool bool
  | PNum rat
  | PStr string
  | PList "pyval list"
  | PDict "(pyval \<times> pyval) list"
  | PDate datetime

datatype py_error =
    ClientError
  | TimeoutError
  | TypeError
  | AttributeError
  | ValueError
  | OverflowError
  | IndexError
  | DecodeError
  | ExpiredSignatureError
  | InvalidLogin pyval
  | PyException string

text \<open>Python truth value testing, as used by \<^verbatim>\<open>not x\<close> and \<^verbatim>\<open>if x\<close>.\<close>

fun truthy :: "pyval \<Rightarrow> bool" where
  "truthy PNone = False"
| "truthy (PBool b) = b"
| "truthy (PNum q) = (q \<noteq> 0)"
| "truthy (PStr s) = (s \<noteq> [])"
| "truthy (PList xs) = (xs \<noteq> [])"
| "truthy (PDict d) = (d \<noteq> [])"
| "truthy (PDate t) = True"

text \<open>\<^verbatim>\<open>x.get(key)\<close>: only a dict has the method; a missing key gives \<^verbatim>\<open>None\<close>.\<close>

fun py_get :: "pyval \<Rightarrow> string \<Rightarrow> py_error + pyval" where
  "py_get (PDict d) k = (case map_of d (PStr k) of None \<Rightarrow> Inr PNone | Some v \<Rightarrow> Inr v)"
| "py_get v k = Inl AttributeError"

text \<open>\<^verbatim>\<open>for x in v\<close>: a list gives its elements, a dict its keys, a string its characters.\<close>

fun py_iter :: "pyval \<Rightarrow> py_error + pyval list" where
  "py_iter (PList xs) = Inr xs"
| "py_iter (PDict d) = Inr (map fst d)"
| "py_iter (PStr s) = Inr (map (\<lambda>c. PStr [c]) s)"
| "py_iter v = Inl TypeError"

definition substring :: "string \<Rightarrow> string \<Rightarrow> bool" where
  "substring k s = list_ex (\<lambda>i. take (length k) (drop i s) = k) [0..<Suc (length s)]"

text \<open>\<^verbatim>\<open>k in v\<close> for a string \<open>k\<close>.\<close>

fun py_in :: "string \<Rightarrow> pyval \<Rightarrow> py_error + bool" where
  "py_in k (PDict d) = Inr (map_of d (PStr k) \<noteq> None)"
| "py_in k (PList xs) = Inr (PStr k \<in> set xs)"
| "py_in k (PStr s) = Inr (substring k s)"
| "py_in k v = Inl TypeError"

text \<open>\<^verbatim>\<open>a and b\<close>, \<^verbatim>\<open>a or b\<close> and \<^verbatim>\<open>not x\<close> on conditions that may raise: the left operand first.\<close>

definition py_and :: "py_error + bool \<Rightarrow> py_error + bool \<Rightarrow> py_error + bool" where
  "py_and a b = (case a of Inl err \<Rightarrow> Inl err | Inr x \<Rightarrow> if x then b else Inr False)"

definition py_or :: "py_error + bool \<Rightarrow> py_error + bool \<Rightarrow> py_error + bool" where
  "py_or a b = (case a of Inl err \<Rightarrow> Inl err | Inr x \<Rightarrow> if x then Inr True else b)"

definition py_not :: "py_error + pyval \<Rightarrow> py_error + bool" where
  "py_not a = (case a of Inl err \<Rightarrow> Inl err | Inr v \<Rightarrow> Inr (\<not> truthy v))"

definition py_ne :: "py_error + pyval \<Rightarrow> pyval \<Rightarrow> py_error + bool" where
  "py_ne a v = (case a of Inl err \<Rightarrow> Inl err | Inr x \<Rightarrow> Inr (x \<noteq> v))"

text \<open>
  \<^verbatim>\<open>d[k] = v\<close> on a dict: lists and dicts are not hashable; an existing key keeps its
  place, a new one goes to the end. Keys are compared by equality of \<open>pyval\<close>.
\<close>

fun hashable :: "pyval \<Rightarrow> bool" where
  "hashable (PList xs) = False"
| "hashable (PDict d) = False"
| "hashable v = True"

definition py_setitem :: "(pyval \<times> 'v) list \<Rightarrow> pyval \<Rightarrow> 'v \<Rightarrow> py_error + (pyval \<times> 'v) list" where
  "py_setitem d k v = (if hashable k then Inr (AList.update k v d) else Inl TypeError)"

section \<open>The datetime library\<close>

definition aware :: "datetime \<Rightarrow> bool" where
  "aware d = (tzinfo d \<noteq> None)"

text \<open>The position of a datetime on the time axis, in microseconds: UTC for an aware one, wall clock for a naive one.\<close>

definition instant :: "datetime \<Rightarrow> int" where
  "instant d =
     ((((ordinal d * 24 + hour d) * 60 + minute d) * 60 + second d)
        - (case tzinfo d of None \<Rightarrow> 0 | Some off \<Rightarrow> off)) * 1000000 + microsecond d"

text \<open>\<^verbatim>\<open>a < b\<close> and \<^verbatim>\<open>a > b\<close>: comparing a naive with an aware datetime raises \<^verbatim>\<open>TypeError\<close>.\<close>

definition dt_lt :: "datetime \<Rightarrow> datetime \<Rightarrow> py_error + bool" where
  "dt_lt a b = (if aware a = aware b then Inr (instant a < instant b) else Inl TypeError)"

definition dt_gt :: "datetime \<Rightarrow> datetime \<Rightarrow> py_error + bool" where
  "dt_gt a b = (if aware a = aware b then Inr (instant a > instant b) else Inl TypeError)"

definition MAXORDINAL :: int where
  "MAXORDINAL = 3652059"

text \<open>
  \<^verbatim>\<open>d + timedelta(days=n)\<close>: the timedelta itself is limited to 999999999 days, and the
  sum must be a date from year 1 to year 9999.
\<close>

definition add_days :: "datetime \<Rightarrow> int \<Rightarrow> py_error + datetime" where
  "add_days d n =
     (if \<bar>n\<bar> > 999999999 then Inl OverflowError
      else if 0 < ordinal d + n \<and> ordinal d + n \<le> MAXORDINAL
           then Inr (d\<lparr>ordinal := ordinal d + n\<rparr>)
           else Inl OverflowError)"

text \<open>\<^verbatim>\<open>datetime.utcfromtimestamp\<close> on a clock reading in microseconds; 719163 is the ordinal of 1970-01-01.\<close>

definition utcfromtimestamp :: "int \<Rightarrow> py_error + datetime" where
  "utcfromtimestamp us =
     (let d = 719163 + us div 86400000000
      in if 0 < d \<and> d \<le> MAXORDINAL
         then Inr \<lparr>ordinal = d, hour = us div 3600000000 mod 24, minute = us div 60000000 mod 60,
                   second = us div 1000000 mod 60, microsecond = us mod 1000000, tzinfo = None\<rparr>
         else Inl ValueError)"

text \<open>The calendar date of an ordinal, by the library's own algorithm (\<^verbatim>\<open>_ord2ymd\<close>).\<close>

definition DAYS_IN_MONTH :: "int list" where
  "DAYS_IN_MONTH = [-1, 31, 28, 31, 30, 31, 30, 31, 31, 30, 31, 30, 31]"

definition DAYS_BEFORE_MONTH :: "int list" where
  "DAYS_BEFORE_MONTH = [-1, 0, 31, 59, 90, 120, 151, 181, 212, 243, 273, 304, 334]"

definition ord2ymd :: "int \<Rightarrow> int \<times> int \<times> int" where
  "ord2ymd n0 =
     (let n = n0 - 1;
          n400 = n div 146097; n = n mod 146097;
          n100 = n div 36524; n = n mod 36524;
          n4 = n div 1461; n = n mod 1461;
          n1 = n div 365; n = n mod 365;
          year = n400 * 400 + 1 + n100 * 100 + n4 * 4 + n1
      in if n1 = 4 \<or> n100 = 4 then (year - 1, 12, 31)
         else
           (let leapyear = (n1 = 3 \<and> (n4 \<noteq> 24 \<or> n100 = 3));
                month = (n + 50) div 32;
                preceding = DAYS_BEFORE_MONTH ! nat month + (if month > 2 \<and> leapyear then 1 else 0)
            in if preceding > n
               then (let month' = month - 1;
                         preceding' = preceding - (DAYS_IN_MONTH ! nat month'
                                        + (if month' = 2 \<and> leapyear then 1 else 0))
                     in (year, month', n - preceding' + 1))
               else (year, month, n - preceding + 1)))"

text \<open>\<^verbatim>\<open>"%0wd" % v\<close>: decimal digits, padded with zeros to width \<open>w\<close>.\<close>

fun showdec :: "nat \<Rightarrow> string" where
  "showdec n = (if n < 10 then [''0123456789'' ! n] else showdec (n div 10) @ [''0123456789'' ! (n mod 10)])"

declare showdec.simps [simp del]

definition fmt_d :: "nat \<Rightarrow> int \<Rightarrow> string" where
  "fmt_d w v =
     (if v < 0 then CHR ''-'' # replicate (w - 1 - length (showdec (nat (- v)))) CHR ''0'' @ showdec (nat (- v))
      else replicate (w - length (showdec (nat v))) CHR ''0'' @ showdec (nat v))"

definition fmt_offset :: "int option \<Rightarrow> string" where
  "fmt_offset tz =
     (case tz of
        None \<Rightarrow> []
      | Some off \<Rightarrow>
          (let a = \<bar>off\<bar>
           in (if off < 0 then ''-'' else ''+'') @ fmt_d 2 (a div 3600) @ '':'' @ fmt_d 2 (a div 60 mod 60)
              @ (if a mod 60 \<noteq> 0 then '':'' @ fmt_d 2 (a mod 60) else [])))"

text \<open>\<^verbatim>\<open>d.isoformat(timespec="milliseconds")\<close>.\<close>

definition isoformat_ms :: "datetime \<Rightarrow> string" where
  "isoformat_ms d =
     (case ord2ymd (ordinal d) of
        (y, m, dd) \<Rightarrow>
          fmt_d 4 y @ ''-'' @ fmt_d 2 m @ ''-'' @ fmt_d 2 dd @ ''T''
          @ fmt_d 2 (hour d) @ '':'' @ fmt_d 2 (minute d) @ '':'' @ fmt_d 2 (second d)
          @ ''.'' @ fmt_d 3 (microsecond d div 1000) @ fmt_offset (tzinfo d))"

section \<open>The outside world\<close>

text \<open>
  One pass through the \<^verbatim>\<open>try\<close> block of \<^verbatim>\<open>_query\<close> ends in one of three ways: an
  \<^verbatim>\<open>aiohttp.ClientError\<close> is raised, an \<^verbatim>\<open>asyncio.TimeoutError\<close> is raised, or a response
  with a status and a JSON body arrives.
\<close>

datatype http_event =
    RaiseClientError
  | RaiseTimeout
  | Response nat pyval

text \<open>What the PyJWT library finds in a token string: nothing it can decode, or a payload with or without an integer \<^verbatim>\<open>exp\<close> claim (seconds since the epoch).\<close>

datatype jwt_payload = Malformed | Claims "int option"

text \<open>
  The environment is what the program cannot control: the outcome of the n-th POST, the
  n-th reading of the clock (microseconds since the epoch), and the two library parsers.
\<close>

record env =
  transport :: "nat \<Rightarrow> http_event"
  clock :: "nat \<Rightarrow> int"
  jwt_parse :: "string \<Rightarrow> jwt_payload"
  fromisoformat :: "string \<Rightarrow> datetime option"

record request =
  req_path :: string
  req_payload :: pyval
  req_authorization :: "string option"

text \<open>The world keeps the requests posted so far, in order, and how often the clock was read.\<close>

record world =
  posts :: "request list"
  ticks :: nat

section \<open>The objects\<close>

text \<open>
  A leading underscore of a Python name is dropped (\<open>jwt\<close> is \<^verbatim>\<open>_jwt\<close>), and a private
  method gets the prefix \<open>u_\<close> (\<open>u_query\<close> is \<^verbatim>\<open>_query\<close>). Fields filled from the
  server's JSON hold whatever value the server sent.
\<close>

record meter =
  meter_id :: pyval
  name :: pyval
  short_name :: pyval
  opt_state :: pyval
  data :: pyval
  first_reading :: pyval
  first_reading_date :: "datetime option"
  last_consumption_date :: "datetime option"
  last_consumption :: pyval
  last_reading_date :: "datetime option"
  last_reading :: pyval

record installation =
  installation_id :: pyval
  customer_id :: pyval
  customer_number :: pyval
  installation_number :: pyval
  address :: pyval
  meters :: "(pyval \<times> meter) list"

record sngraz =
  username :: string
  password :: string
  time_zone :: int
  installations :: "(pyval \<times> installation) list"
  jwt :: pyval

section \<open>StromNetzGraz\<close>

text \<open>\<^verbatim>\<open>StromNetzGraz.__init__\<close>: no installations and no token yet.\<close>

definition StromNetzGraz_init :: "string \<Rightarrow> string \<Rightarrow> int \<Rightarrow> sngraz" where
  "StromNetzGraz_init user pass tz =
     \<lparr>username = user, password = pass, time_zone = tz, installations = [], jwt = PNone\<rparr>"

text \<open>
  \<^verbatim>\<open>jwt.decode(token, options={"verify_signature": False, "verify_exp": True})\<close>:
  a token that is not a string or does not decode raises, and so does one whose
  \<^verbatim>\<open>exp\<close> is not after the current time.
\<close>

definition jwt_decode :: "env \<Rightarrow> int \<Rightarrow> pyval \<Rightarrow> py_error + unit" where
  "jwt_decode e now tok =
     (case tok of
        PStr t \<Rightarrow>
          (case jwt_parse e t of
             Malformed \<Rightarrow> Inl DecodeError
           | Claims None \<Rightarrow> Inr ()
           | Claims (Some ex) \<Rightarrow>
               if ex * 1000000 \<le> now then Inl ExpiredSignatureError else Inr ())
      | _ \<Rightarrow> Inl DecodeError)"

definition ok :: "env \<Rightarrow> sngraz \<Rightarrow> world \<Rightarrow> bool \<times> sngraz \<times> world" where
  "ok e s w =
     (if jwt s = PNone then (False, s, w)
      else (case jwt_decode e (clock e (ticks w)) (jwt s) of
              Inl err \<Rightarrow> (False, s\<lparr>jwt := PNone\<rparr>, w\<lparr>ticks := Suc (ticks w)\<rparr>)
            | Inr u \<Rightarrow> (True, s, w\<lparr>ticks := Suc (ticks w)\<rparr>)))"

text \<open>
  The part of \<^verbatim>\<open>_query\<close> up to the end of the POST: the headers are built (with the
  bearer token when \<open>ok\<close>), the request is sent and logged, and the transport answers.
\<close>

definition post :: "env \<Rightarrow> string \<Rightarrow> pyval \<Rightarrow> sngraz \<Rightarrow> world \<Rightarrow> (py_error + http_event) \<times> sngraz \<times> world" where
  "post e path payload s w =
     (case ok e s w of
        (valid, s1, w1) \<Rightarrow>
          if valid then
            (case jwt s1 of
               PStr t \<Rightarrow>
                 (Inr (transport e (length (posts w1))), s1,
                  w1\<lparr>posts := posts w1 @
                     [\<lparr>req_path = path, req_payload = payload,
                       req_authorization = Some (''Bearer '' @ t)\<rparr>]\<rparr>)
             | _ \<Rightarrow> (Inl TypeError, s1, w1))
          else
            (Inr (transport e (length (posts w1))), s1,
             w1\<lparr>posts := posts w1 @
                [\<lparr>req_path = path, req_payload = payload, req_authorization = None\<rparr>]\<rparr>))"

text \<open>
  \<^verbatim>\<open>_query(path, payload, retry)\<close>. A status other than 200 returns \<^verbatim>\<open>None\<close>; a
  \<^verbatim>\<open>ClientError\<close> calls \<^verbatim>\<open>_query\<close> again while \<open>retry > 0\<close> and is raised otherwise; a
  timeout is raised. The check of the \<^verbatim>\<open>error\<close> key only logs.
\<close>

fun u_query :: "env \<Rightarrow> string \<Rightarrow> pyval \<Rightarrow> nat \<Rightarrow> sngraz \<Rightarrow> world \<Rightarrow> (py_error + pyval) \<times> sngraz \<times> world" where
  "u_query e path payload retry s w =
     (case post e path payload s w of
        (Inl err, s1, w1) \<Rightarrow> (Inl err, s1, w1)
      | (Inr RaiseClientError, s1, w1) \<Rightarrow>
          (case retry of
             0 \<Rightarrow> (Inl ClientError, s1, w1)
           | Suc r \<Rightarrow> u_query e path payload r s1 w1)
      | (Inr RaiseTimeout, s1, w1) \<Rightarrow> (Inl TimeoutError, s1, w1)
      | (Inr (Response status body), s1, w1) \<Rightarrow>
          if status \<noteq> 200 then (Inr PNone, s1, w1) else (Inr body, s1, w1))"

declare u_query.simps [simp del]

text \<open>
  \<^verbatim>\<open>authenticate()\<close>. \<^verbatim>\<open>None\<close> from \<^verbatim>\<open>_query\<close> returns \<^verbatim>\<open>False\<close>; the two checks of
  the response raise \<^verbatim>\<open>InvalidLogin\<close> and \<^verbatim>\<open>ValueError\<close>; the token is stored and
  \<open>ok\<close> is asked again.
\<close>

definition authenticate :: "env \<Rightarrow> sngraz \<Rightarrow> world \<Rightarrow> (py_error + bool) \<times> sngraz \<times> world" where
  "authenticate e s w =
     (case u_query e ''login''
             (PDict [(PStr ''email'', PStr (username s)), (PStr ''password'', PStr (password s))]) 2 s w of
        (Inl err, s1, w1) \<Rightarrow> (Inl err, s1, w1)
      | (Inr resp, s1, w1) \<Rightarrow>
          if resp = PNone then (Inr False, s1, w1)
          else
            (case py_and (py_in ''error'' resp) (py_ne (py_get resp ''error'') (PStr [])) of
               Inl err \<Rightarrow> (Inl err, s1, w1)
             | Inr True \<Rightarrow>
                 (case py_get resp ''error'' of
                    Inl err \<Rightarrow> (Inl err, s1, w1)
                  | Inr msg \<Rightarrow> (Inl (InvalidLogin msg), s1, w1))
             | Inr False \<Rightarrow>
                 (case py_or (py_and (py_in ''success'' resp) (py_not (py_get resp ''success'')))
                             (py_not (py_get resp ''token'')) of
                    Inl err \<Rightarrow> (Inl err, s1, w1)
                  | Inr True \<Rightarrow> (Inl ValueError, s1, w1)
                  | Inr False \<Rightarrow>
                      (case py_get resp ''token'' of
                         Inl err \<Rightarrow> (Inl err, s1, w1)
                       | Inr tok \<Rightarrow>
                           (case ok e (s1\<lparr>jwt := tok\<rparr>) w1 of
                              (valid, s2, w2) \<Rightarrow>
                                if \<not> valid then (Inl (PyException ''login failed''), s2, w2)
                                else (Inr True, s2, w2))))))"

text \<open>\<^verbatim>\<open>query(path, payload)\<close>: authenticates first when the token is not \<open>ok\<close>; what \<^verbatim>\<open>authenticate\<close> returns is not looked at.\<close>

definition query :: "env \<Rightarrow> string \<Rightarrow> pyval \<Rightarrow> sngraz \<Rightarrow> world \<Rightarrow> (py_error + pyval) \<times> sngraz \<times> world" where
  "query e path payload s w =
     (case ok e s w of
        (valid, s1, w1) \<Rightarrow>
          if \<not> valid then
            (case authenticate e s1 w1 of
               (Inl err, s2, w2) \<Rightarrow> (Inl err, s2, w2)
             | (Inr b, s2, w2) \<Rightarrow> u_query e path payload 2 s2 w2)
          else u_query e path payload 2 s1 w1)"

section \<open>SNGrazMeter and SNGrazInstallation: construction\<close>

definition SNGrazMeter_init :: "pyval \<Rightarrow> pyval \<Rightarrow> py_error + meter" where
  "SNGrazMeter_init mid info =
     (case py_get info ''name'' of
        Inl err \<Rightarrow> Inl err
      | Inr nm \<Rightarrow>
          (case py_get info ''shortName'' of
             Inl err \<Rightarrow> Inl err
           | Inr sh \<Rightarrow>
               (case py_get info ''optState'' of
                  Inl err \<Rightarrow> Inl err
                | Inr os \<Rightarrow>
                    (case py_get os ''currentOptState'' of
                       Inl err \<Rightarrow> Inl err
                     | Inr cur \<Rightarrow>
                         Inr \<lparr>meter_id = mid, name = nm, short_name = sh, opt_state = cur,
                              data = PNone, first_reading = PNone, first_reading_date = None,
                              last_consumption_date = None, last_consumption = PNone,
                              last_reading_date = None, last_reading = PNone\<rparr>))))"

text \<open>The loop over \<^verbatim>\<open>info.get("meterPoints")\<close> in \<^verbatim>\<open>SNGrazInstallation.__init__\<close>.\<close>

fun meters_loop :: "pyval list \<Rightarrow> (pyval \<times> meter) list \<Rightarrow> py_error + (pyval \<times> meter) list" where
  "meters_loop [] ms = Inr ms"
| "meters_loop (x # xs) ms =
     (case py_get x ''meterPointID'' of
        Inl err \<Rightarrow> Inl err
      | Inr mid \<Rightarrow>
          if \<not> truthy mid then meters_loop xs ms
          else
            (case SNGrazMeter_init mid x of
               Inl err \<Rightarrow> Inl err
             | Inr m \<Rightarrow>
                 (case py_setitem ms mid m of
                    Inl err \<Rightarrow> Inl err
                  | Inr ms' \<Rightarrow> meters_loop xs ms')))"

definition SNGrazInstallation_init :: "pyval \<Rightarrow> pyval \<Rightarrow> py_error + installation" where
  "SNGrazInstallation_init iid info =
     (case py_get info ''customerID'' of
        Inl err \<Rightarrow> Inl err
      | Inr cid \<Rightarrow>
     (case py_get info ''customerNumber'' of
        Inl err \<Rightarrow> Inl err
      | Inr cnum \<Rightarrow>
     (case py_get info ''installationNumber'' of
        Inl err \<Rightarrow> Inl err
      | Inr inum \<Rightarrow>
     (case py_get info ''address'' of
        Inl err \<Rightarrow> Inl err
      | Inr addr \<Rightarrow>
     (case py_get info ''meterPoints'' of
        Inl err \<Rightarrow> Inl err
      | Inr mps \<Rightarrow>
     (case py_iter mps of
        Inl err \<Rightarrow> Inl err
      | Inr xs \<Rightarrow>
     (case meters_loop xs [] of
        Inl err \<Rightarrow> Inl err
      | Inr ms \<Rightarrow>
          Inr \<lparr>installation_id = iid, customer_id = cid, customer_number = cnum,
               installation_number = inum, address = addr, meters = ms\<rparr>)))))))"

definition get_meter_ids :: "installation \<Rightarrow> pyval list" where
  "get_meter_ids i = map fst (meters i)"

definition get_meter :: "installation \<Rightarrow> pyval \<Rightarrow> py_error + meter" where
  "get_meter i mid =
     (if \<not> hashable mid then Inl TypeError
      else (case map_of (meters i) mid of None \<Rightarrow> Inl ValueError | Some m \<Rightarrow> Inr m))"

section \<open>StromNetzGraz: installations\<close>

text \<open>The loop of \<^verbatim>\<open>update_info\<close>; an exception leaves the installations stored so far.\<close>

fun update_loop :: "pyval list \<Rightarrow> (pyval \<times> installation) list \<Rightarrow> (py_error + unit) \<times> (pyval \<times> installation) list" where
  "update_loop [] insts = (Inr (), insts)"
| "update_loop (x # xs) insts =
     (case py_get x ''installationID'' of
        Inl err \<Rightarrow> (Inl err, insts)
      | Inr iid \<Rightarrow>
          if \<not> truthy iid then update_loop xs insts
          else
            (case SNGrazInstallation_init iid x of
               Inl err \<Rightarrow> (Inl err, insts)
             | Inr inst \<Rightarrow>
                 (case py_setitem insts iid inst of
                    Inl err \<Rightarrow> (Inl err, insts)
                  | Inr insts' \<Rightarrow> update_loop xs insts')))"

definition update_info :: "env \<Rightarrow> sngraz \<Rightarrow> world \<Rightarrow> (py_error + unit) \<times> sngraz \<times> world" where
  "update_info e s w =
     (case query e ''getInstallations'' (PList []) s w of
        (Inl err, s1, w1) \<Rightarrow> (Inl err, s1, w1)
      | (Inr res, s1, w1) \<Rightarrow>
          if res = PNone then (Inr (), s1, w1)
          else
            (case py_iter res of
               Inl err \<Rightarrow> (Inl err, s1, w1)
             | Inr xs \<Rightarrow>
                 (case update_loop xs (installations s1) of
                    (r, insts) \<Rightarrow> (r, s1\<lparr>installations := insts\<rparr>, w1))))"

definition get_installation_ids :: "sngraz \<Rightarrow> pyval list" where
  "get_installation_ids s = map fst (installations s)"

definition get_installation :: "sngraz \<Rightarrow> pyval \<Rightarrow> py_error + installation" where
  "get_installation s iid =
     (if \<not> hashable iid then Inl TypeError
      else (case map_of (installations s) iid of None \<Rightarrow> Inl ValueError | Some i \<Rightarrow> Inr i))"

section \<open>SNGrazMeter\<close>

text \<open>
  A meter reaches the \<^verbatim>\<open>StromNetzGraz\<close> object through \<^verbatim>\<open>self._sn_inst._sn\<close>. Its methods
  take the meter and that object as two arguments and return both: they change the
  meter's own fields and, through \<open>query\<close>, the token.
\<close>

definition py_fromisoformat :: "env \<Rightarrow> pyval \<Rightarrow> py_error + datetime" where
  "py_fromisoformat e v =
     (case v of
        PStr t \<Rightarrow> (case fromisoformat e t of None \<Rightarrow> Inl ValueError | Some d \<Rightarrow> Inr d)
      | _ \<Rightarrow> Inl TypeError)"

definition u_get_first_reading_date :: "env \<Rightarrow> meter \<Rightarrow> sngraz \<Rightarrow> world \<Rightarrow> (py_error + datetime option) \<times> meter \<times> sngraz \<times> world" where
  "u_get_first_reading_date e m s w =
     (case first_reading_date m of
        Some d \<Rightarrow> (Inr (Some d), m, s, w)
      | None \<Rightarrow>
          (case query e ''getMeterReadingMetaData'' (PDict [(PStr ''meterPointId'', meter_id m)]) s w of
             (Inl err, s1, w1) \<Rightarrow> (Inl err, m, s1, w1)
           | (Inr resp, s1, w1) \<Rightarrow>
               if resp = PNone then (Inr None, m, s1, w1)
               else
                 (case py_get resp ''readingsAvailableSince'' of
                    Inl err \<Rightarrow> (Inl err, m, s1, w1)
                  | Inr v \<Rightarrow>
                      (case py_fromisoformat e v of
                         Inl err \<Rightarrow> (Inl err, m, s1, w1)
                       | Inr d \<Rightarrow>
                           (Inr (Some (d\<lparr>tzinfo := Some (time_zone s1), minute := 0\<rparr>)),
                            m\<lparr>first_reading_date := Some (d\<lparr>tzinfo := Some (time_zone s1), minute := 0\<rparr>)\<rparr>,
                            s1, w1)))))"

text \<open>The inner loop of \<^verbatim>\<open>_fetch_data\<close>, over the \<^verbatim>\<open>readingValues\<close> of one reading.\<close>

fun values_loop :: "pyval list \<Rightarrow> (pyval \<times> pyval) list \<Rightarrow> py_error + (pyval \<times> pyval) list" where
  "values_loop [] res = Inr res"
| "values_loop (rv # rvs) res =
     (case py_ne (py_get rv ''readingState'') (PStr ''Valid'') of
        Inl err \<Rightarrow> Inl err
      | Inr True \<Rightarrow> values_loop rvs res
      | Inr False \<Rightarrow>
          (case py_get rv ''value'' of
             Inl err \<Rightarrow> Inl err
           | Inr v \<Rightarrow>
               (case py_get rv ''readingType'' of
                  Inl err \<Rightarrow> Inl err
                | Inr k \<Rightarrow>
                    (case py_setitem res k v of
                       Inl err \<Rightarrow> Inl err
                     | Inr res' \<Rightarrow> values_loop rvs res'))))"

text \<open>\<^verbatim>\<open>if d.endswith("Z"): d = d[:-1] + "+00:00"\<close>.\<close>

definition patch_z :: "pyval \<Rightarrow> py_error + pyval" where
  "patch_z d =
     (case d of
        PStr t \<Rightarrow> if t \<noteq> [] \<and> last t = CHR ''Z'' then Inr (PStr (butlast t @ ''+00:00'')) else Inr (PStr t)
      | _ \<Rightarrow> Inl AttributeError)"

text \<open>The two updates of the last value trackers, for a record \<open>res\<close> read at time \<open>t\<close>.\<close>

definition track_consumption :: "(pyval \<times> pyval) list \<Rightarrow> datetime \<Rightarrow> meter \<Rightarrow> (py_error + unit) \<times> meter" where
  "track_consumption res t m =
     (case map_of res (PStr ''CONSUMP'') of
        None \<Rightarrow> (Inr (), m)
      | Some v \<Rightarrow>
          (case (case last_consumption_date m of None \<Rightarrow> Inr True | Some l \<Rightarrow> dt_gt t l) of
             Inl err \<Rightarrow> (Inl err, m)
           | Inr True \<Rightarrow> (Inr (), m\<lparr>last_consumption_date := Some t, last_consumption := v\<rparr>)
           | Inr False \<Rightarrow> (Inr (), m)))"

definition track_reading :: "(pyval \<times> pyval) list \<Rightarrow> datetime \<Rightarrow> meter \<Rightarrow> (py_error + unit) \<times> meter" where
  "track_reading res t m =
     (case map_of res (PStr ''MR'') of
        None \<Rightarrow> (Inr (), m)
      | Some v \<Rightarrow>
          (case (case last_reading_date m of None \<Rightarrow> Inr True | Some l \<Rightarrow> dt_gt t l) of
             Inl err \<Rightarrow> (Inl err, m)
           | Inr True \<Rightarrow> (Inr (), m\<lparr>last_reading_date := Some t, last_reading := v\<rparr>)
           | Inr False \<Rightarrow> (Inr (), m)))"

text \<open>
  The body of the outer loop of \<^verbatim>\<open>_fetch_data\<close> for one reading: \<open>None\<close> when the
  reading is skipped, the enriched record when it is appended.
\<close>

definition process_reading :: "env \<Rightarrow> pyval \<Rightarrow> meter \<Rightarrow> (py_error + pyval option) \<times> meter" where
  "process_reading e reading m =
     (case py_get reading ''readingValues'' of
        Inl err \<Rightarrow> (Inl err, m)
      | Inr rvl \<Rightarrow>
     (case py_iter rvl of
        Inl err \<Rightarrow> (Inl err, m)
      | Inr rvs \<Rightarrow>
     (case values_loop rvs [] of
        Inl err \<Rightarrow> (Inl err, m)
      | Inr res \<Rightarrow>
          if res = [] then (Inr None, m)
          else
     (case py_get reading ''readTime'' of
        Inl err \<Rightarrow> (Inl err, m)
      | Inr d \<Rightarrow>
     (case patch_z d of
        Inl err \<Rightarrow> (Inl err, m)
      | Inr d' \<Rightarrow>
     (case py_fromisoformat e d' of
        Inl err \<Rightarrow> (Inl err, m)
      | Inr t \<Rightarrow>
     (case track_consumption
             (AList.update (PStr ''readingValues'') rvl (AList.update (PStr ''readTime'') (PDate t) res)) t m of
        (Inl err, m1) \<Rightarrow> (Inl err, m1)
      | (Inr u, m1) \<Rightarrow>
     (case track_reading
             (AList.update (PStr ''readingValues'') rvl (AList.update (PStr ''readTime'') (PDate t) res)) t m1 of
        (Inl err, m2) \<Rightarrow> (Inl err, m2)
      | (Inr u, m2) \<Rightarrow>
          (Inr (Some (PDict (AList.update (PStr ''readingValues'') rvl
                               (AList.update (PStr ''readTime'') (PDate t) res)))), m2)))))))))"

fun readings_loop :: "env \<Rightarrow> pyval list \<Rightarrow> pyval list \<Rightarrow> meter \<Rightarrow> (py_error + pyval list) \<times> meter" where
  "readings_loop e [] result m = (Inr result, m)"
| "readings_loop e (reading # rest) result m =
     (case process_reading e reading m of
        (Inl err, m1) \<Rightarrow> (Inl err, m1)
      | (Inr None, m1) \<Rightarrow> readings_loop e rest result m1
      | (Inr (Some res), m1) \<Rightarrow> readings_loop e rest (result @ [res]) m1)"

text \<open>
  The part of \<^verbatim>\<open>_fetch_data\<close> after the query for the readings: it works on the response
  and on the meter only.
\<close>

definition read_response :: "env \<Rightarrow> pyval \<Rightarrow> meter \<Rightarrow> (py_error + pyval) \<times> meter" where
  "read_response e resp m =
     (if resp = PNone then (Inr PNone, m)
      else
     (case py_not (py_get resp ''readings'') of
        Inl err \<Rightarrow> (Inl err, m)
      | Inr True \<Rightarrow> (Inr PNone, m)
      | Inr False \<Rightarrow>
     (case py_get resp ''readings'' of
        Inl err \<Rightarrow> (Inl err, m)
      | Inr readings \<Rightarrow>
     (case py_iter readings of
        Inl err \<Rightarrow> (Inl err, m)
      | Inr rs \<Rightarrow>
     (case readings_loop e rs [] m of
        (Inl err, m2) \<Rightarrow> (Inl err, m2)
      | (Inr result, m2) \<Rightarrow> (Inr (PList result), m2))))))"

text \<open>\<^verbatim>\<open>_fetch_data\<close> from the lookup of the first reading date on, for the chosen interval.\<close>

definition fetch_interval :: "env \<Rightarrow> string \<Rightarrow> datetime \<Rightarrow> datetime \<Rightarrow> meter \<Rightarrow> sngraz \<Rightarrow> world \<Rightarrow> (py_error + pyval) \<times> meter \<times> sngraz \<times> world" where
  "fetch_interval e interval startTime endTime m s w =
     (case u_get_first_reading_date e m s w of
        (Inl err, m1, s1, w1) \<Rightarrow> (Inl err, m1, s1, w1)
      | (Inr None, m1, s1, w1) \<Rightarrow> (Inr PNone, m1, s1, w1)
      | (Inr (Some first), m1, s1, w1) \<Rightarrow>
     (case dt_lt startTime first of
        Inl err \<Rightarrow> (Inl err, m1, s1, w1)
      | Inr early \<Rightarrow>
     (case query e ''getMeterReading''
             (PDict [(PStr ''unitOfConsump'', PStr ''KWH''),
                     (PStr ''interval'', PStr interval),
                     (PStr ''meterPointId'', meter_id m1),
                     (PStr ''fromDate'', PStr (isoformat_ms (if early then first else startTime))),
                     (PStr ''toDate'', PStr (isoformat_ms endTime))]) s1 w1 of
        (Inl err, s2, w2) \<Rightarrow> (Inl err, m1, s2, w2)
      | (Inr resp, s2, w2) \<Rightarrow>
          (case read_response e resp m1 of (r, m2) \<Rightarrow> (r, m2, s2, w2)))))"

definition u_fetch_data :: "env \<Rightarrow> datetime \<Rightarrow> datetime \<Rightarrow> meter \<Rightarrow> sngraz \<Rightarrow> world \<Rightarrow> (py_error + pyval) \<times> meter \<times> sngraz \<times> world" where
  "u_fetch_data e startTime endTime m s w =
     (if opt_state m = PStr ''OptMiddle''
        then fetch_interval e ''Daily'' startTime (endTime\<lparr>hour := 0, minute := 0\<rparr>) m s w
      else if opt_state m = PStr ''OptIn''
        then fetch_interval e ''QuarterHourly'' startTime endTime m s w
      else (Inr PNone, m, s, w))"

text \<open>
  The first two statements of \<^verbatim>\<open>fetch_consumption_data\<close> and of \<^verbatim>\<open>get_historic_data\<close>:
  the clock is read once, \<open>endTime\<close> is the current hour in the configured time zone and
  \<open>startTime\<close> is \<open>days\<close> days earlier.
\<close>

definition utcnow :: "env \<Rightarrow> world \<Rightarrow> (py_error + datetime) \<times> world" where
  "utcnow e w = (utcfromtimestamp (clock e (ticks w)), w\<lparr>ticks := Suc (ticks w)\<rparr>)"

definition time_window :: "env \<Rightarrow> int \<Rightarrow> sngraz \<Rightarrow> world \<Rightarrow> (py_error + datetime \<times> datetime) \<times> world" where
  "time_window e days s w =
     (case utcnow e w of
        (Inl err, w1) \<Rightarrow> (Inl err, w1)
      | (Inr now, w1) \<Rightarrow>
          (case add_days (now\<lparr>microsecond := 0, second := 0, minute := 0, tzinfo := Some (time_zone s)\<rparr>) (- days) of
             Inl err \<Rightarrow> (Inl err, w1)
           | Inr startTime \<Rightarrow>
               (Inr (startTime, now\<lparr>microsecond := 0, second := 0, minute := 0, tzinfo := Some (time_zone s)\<rparr>), w1)))"

definition fetch_consumption_data :: "env \<Rightarrow> int \<Rightarrow> meter \<Rightarrow> sngraz \<Rightarrow> world \<Rightarrow> (py_error + unit) \<times> meter \<times> sngraz \<times> world" where
  "fetch_consumption_data e days m s w =
     (case time_window e days s w of
        (Inl err, w1) \<Rightarrow> (Inl err, m, s, w1)
      | (Inr (startTime, endTime), w1) \<Rightarrow>
          (case u_fetch_data e startTime endTime m s w1 of
             (Inl err, m1, s1, w2) \<Rightarrow> (Inl err, m1, s1, w2)
           | (Inr resp, m1, s1, w2) \<Rightarrow>
               if resp = PNone then (Inr (), m1, s1, w2)
               else (Inr (), m1\<lparr>data := resp\<rparr>, s1, w2)))"

definition get_historic_data :: "env \<Rightarrow> int \<Rightarrow> meter \<Rightarrow> sngraz \<Rightarrow> world \<Rightarrow> (py_error + pyval) \<times> meter \<times> sngraz \<times> world" where
  "get_historic_data e days m s w =
     (case time_window e days s w of
        (Inl err, w1) \<Rightarrow> (Inl err, m, s, w1)
      | (Inr (startTime, endTime), w1) \<Rightarrow>
          (case u_fetch_data e startTime endTime m s w1 of
             (Inl err, m1, s1, w2) \<Rightarrow> (Inl err, m1, s1, w2)
           | (Inr resp, m1, s1, w2) \<Rightarrow>
               if resp = PNone then (Inr PNone, m1, s1, w2)
               else (Inr resp, m1, s1, w2)))"

text \<open>\<^verbatim>\<open>len(v)\<close> and \<^verbatim>\<open>v[0]\<close>.\<close>

fun py_len :: "pyval \<Rightarrow> py_error + nat" where
  "py_len (PList xs) = Inr (length xs)"
| "py_len (PDict d) = Inr (length d)"
| "py_len (PStr s) = Inr (length s)"
| "py_len v = Inl TypeError"

fun py_first :: "pyval \<Rightarrow> py_error + pyval" where
  "py_first (PList []) = Inl IndexError"
| "py_first (PList (x # xs)) = Inr x"
| "py_first v = Inl TypeError"

text \<open>
  The \<^verbatim>\<open>while len(resp) == 0\<close> loop of \<^verbatim>\<open>get_first_reading\<close>, entered with the current
  window. It returns \<open>PNone\<close> where the Python returns \<^verbatim>\<open>None\<close> from inside the loop,
  and the fetched list when the loop ends. Both edges are moved before the length is
  tested. Every turn moves \<open>startTime\<close> seven days towards the last date a
  \<^verbatim>\<open>datetime\<close> can hold, where the addition raises.
\<close>

function first_reading_loop :: "env \<Rightarrow> datetime \<Rightarrow> datetime \<Rightarrow> meter \<Rightarrow> sngraz \<Rightarrow> world \<Rightarrow> (py_error + pyval) \<times> meter \<times> sngraz \<times> world" where
  "first_reading_loop e startTime endTime m s w =
     (case u_fetch_data e startTime endTime m s w of
        (Inl err, m1, s1, w1) \<Rightarrow> (Inl err, m1, s1, w1)
      | (Inr resp, m1, s1, w1) \<Rightarrow>
          if resp = PNone then (Inr PNone, m1, s1, w1)
          else
            (case add_days startTime 7 of
               Inl err \<Rightarrow> (Inl err, m1, s1, w1)
             | Inr startTime' \<Rightarrow>
                 (case add_days startTime' 7 of
                    Inl err \<Rightarrow> (Inl err, m1, s1, w1)
                  | Inr endTime' \<Rightarrow>
                      (case py_len resp of
                         Inl err \<Rightarrow> (Inl err, m1, s1, w1)
                       | Inr n \<Rightarrow>
                           if n = 0 then first_reading_loop e startTime' endTime' m1 s1 w1
                           else (Inr resp, m1, s1, w1)))))"
  by pat_completeness auto
termination
  by (relation "measure (\<lambda>(e, startTime, endTime, m, s, w). nat (MAXORDINAL - ordinal startTime))")
     (auto simp: add_days_def split: if_splits)

declare first_reading_loop.simps [simp del]

definition get_first_reading :: "env \<Rightarrow> meter \<Rightarrow> sngraz \<Rightarrow> world \<Rightarrow> (py_error + pyval) \<times> meter \<times> sngraz \<times> world" where
  "get_first_reading e m s w =
     (if truthy (first_reading m) then (Inr (first_reading m), m, s, w)
      else
        (case u_get_first_reading_date e m s w of
           (Inl err, m1, s1, w1) \<Rightarrow> (Inl err, m1, s1, w1)
         | (Inr None, m1, s1, w1) \<Rightarrow> (Inr PNone, m1, s1, w1)
         | (Inr (Some startTime), m1, s1, w1) \<Rightarrow>
        (case add_days startTime 7 of
           Inl err \<Rightarrow> (Inl err, m1, s1, w1)
         | Inr endTime \<Rightarrow>
        (case first_reading_loop e startTime endTime m1 s1 w1 of
           (Inl err, m2, s2, w2) \<Rightarrow> (Inl err, m2, s2, w2)
         | (Inr resp, m2, s2, w2) \<Rightarrow>
             if resp = PNone then (Inr PNone, m2, s2, w2)
             else
        (case py_first resp of
           Inl err \<Rightarrow> (Inl err, m2, s2, w2)
         | Inr r0 \<Rightarrow>
        (case py_in ''MR'' r0 of
           Inl err \<Rightarrow> (Inl err, m2, s2, w2)
         | Inr False \<Rightarrow> (Inr PNone, m2, s2, w2)
         | Inr True \<Rightarrow>
        (case py_get r0 ''MR'' of
           Inl err \<Rightarrow> (Inl err, m2, s2, w2)
         | Inr v \<Rightarrow> (Inr v, m2\<lparr>first_reading := v\<rparr>, s2, w2))))))))"

section \<open>A caller\<close>

text \<open>
  A caller of one meter: any sequence of the public operations and of the fetch primitive
  itself, going on after an operation that raised (the object keeps the state it had
  when the exception left it).
\<close>

datatype meter_op =
    FetchConsumptionData int
  | GetHistoricData int
  | GetFirstReading
  | FetchData datetime datetime

fun run_op :: "env \<Rightarrow> meter_op \<Rightarrow> meter \<times> sngraz \<times> world \<Rightarrow> meter \<times> sngraz \<times> world" where
  "run_op e (FetchConsumptionData days) (m, s, w) = snd (fetch_consumption_data e days m s w)"
| "run_op e (GetHistoricData days) (m, s, w) = snd (get_historic_data e days m s w)"
| "run_op e GetFirstReading (m, s, w) = snd (get_first_reading e m s w)"
| "run_op e (FetchData startTime endTime) (m, s, w) = snd (u_fetch_data e startTime endTime m s w)"

fun run_ops :: "env \<Rightarrow> meter_op list \<Rightarrow> meter \<times> sngraz \<times> world \<Rightarrow> meter \<times> sngraz \<times> world" where
  "run_ops e [] st = st"
| "run_ops e (x # xs) st = run_ops e xs (run_op e x st)"

section \<open>What the readings of a response say\<close>

text \<open>
  The vocabulary of the properties of the fetched records: a field of a JSON object
  (\<open>PNone\<close> when there is none), and the (type, value) pairs of the sub-values of a raw
  reading whose state is \<^verbatim>\<open>Valid\<close>, in the order of the server. \<open>record_of reading rec\<close>
  says that \<open>rec\<close> is a dict that maps every key other than \<^verbatim>\<open>readTime\<close> and
  \<^verbatim>\<open>readingValues\<close> as the valid sub-values of \<open>reading\<close> do (the last sub-value of a
  type wins), and \<^verbatim>\<open>readingValues\<close> to the raw list of \<open>reading\<close>.
\<close>

definition field :: "pyval \<Rightarrow> string \<Rightarrow> pyval" where
  "field v k = (case py_get v k of Inl err \<Rightarrow> PNone | Inr x \<Rightarrow> x)"

definition entries :: "pyval list \<Rightarrow> (pyval \<times> pyval) list" where
  "entries rvs = map (\<lambda>rv. (field rv ''readingType'', field rv ''value''))
                    (filter (\<lambda>rv. field rv ''readingState'' = PStr ''Valid'') rvs)"

definition valid_entries :: "pyval \<Rightarrow> (pyval \<times> pyval) list" where
  "valid_entries reading =
     entries (case py_iter (field reading ''readingValues'') of Inl err \<Rightarrow> [] | Inr rvs \<Rightarrow> rvs)"

definition record_of :: "pyval \<Rightarrow> pyval \<Rightarrow> bool" where
  "record_of reading rec =
     (\<exists>d. rec = PDict d
        \<and> (\<forall>k. k \<noteq> PStr ''readTime'' \<longrightarrow> k \<noteq> PStr ''readingValues'' \<longrightarrow>
               map_of d k = map_of (rev (valid_entries reading)) k)
        \<and> map_of d (PStr ''readingValues'') = Some (field reading ''readingValues''))"

section \<open>The keys of the installations and meters\<close>

text \<open>Every key of \<^verbatim>\<open>_installations\<close>, and every key of \<^verbatim>\<open>_meters\<close> of every installation, is a true value.\<close>

definition keys_truthy :: "(pyval \<times> installation) list \<Rightarrow> bool" where
  "keys_truthy insts =
     list_all (\<lambda>(iid, inst). truthy iid \<and> list_all (\<lambda>(mid, m). truthy mid) (meters inst)) insts"

definition ids_truthy :: "sngraz \<Rightarrow> bool" where
  "ids_truthy s = keys_truthy (installations s)"

section \<open>The order of the trackers\<close>

text \<open>
  \<open>tracker_le a b\<close>: the cached timestamp \<open>b\<close> is not older than \<open>a\<close>. An empty slot is
  below everything; two timestamps are compared as Python compares them (both naive or
  both aware). \<open>seen_le key rec tr\<close>: the record \<open>rec\<close> has no entry \<open>key\<close>, or its
  \<^verbatim>\<open>readTime\<close> is not newer than the tracker \<open>tr\<close>.
\<close>

definition tracker_le :: "datetime option \<Rightarrow> datetime option \<Rightarrow> bool" where
  "tracker_le a b =
     (case a of
        None \<Rightarrow> True
      | Some x \<Rightarrow> (case b of None \<Rightarrow> False | Some y \<Rightarrow> aware x = aware y \<and> instant x \<le> instant y))"

definition seen_le :: "string \<Rightarrow> pyval \<Rightarrow> datetime option \<Rightarrow> bool" where
  "seen_le key rec tr =
     (case rec of
        PDict d \<Rightarrow>
          (case map_of d (PStr key) of
             None \<Rightarrow> True
           | Some v \<Rightarrow>
               (case map_of d (PStr ''readTime'') of
                  Some (PDate t) \<Rightarrow> tracker_le (Some t) tr
                | _ \<Rightarrow> False))
      | _ \<Rightarrow> False)"

definition trackers_le :: "meter \<Rightarrow> meter \<Rightarrow> bool" where
  "trackers_le m m' = (tracker_le (last_consumption_date m) (last_consumption_date m')
                      \<and> tracker_le (last_reading_date m) (last_reading_date m'))"

definition all_seen :: "pyval list \<Rightarrow> meter \<Rightarrow> bool" where
  "all_seen recs m = (\<forall>rec\<in>set recs. seen_le ''CONSUMP'' rec (last_consumption_date m)
                                    \<and> seen_le ''MR'' rec (last_reading_date m))"

section \<open>What a fetch leaves alone\<close>

text \<open>
  \<open>frame m m'\<close>: from \<open>m\<close> to \<open>m'\<close> the identity of the meter, its mode, the cached
  \<^verbatim>\<open>_data\<close> and the cached first reading are the same, and a first reading date that
  was resolved is still the same date.
\<close>

definition frame :: "meter \<Rightarrow> meter \<Rightarrow> bool" where
  "frame m m' =
     (meter_id m' = meter_id m \<and> name m' = name m \<and> short_name m' = short_name m
      \<and> opt_state m' = opt_state m \<and> data m' = data m \<and> first_reading m' = first_reading m
      \<and> (case first_reading_date m of None \<Rightarrow> True | Some d \<Rightarrow> first_reading_date m' = Some d))"

section \<open>Test worlds\<close>

text \<open>Concrete objects and environments on which the properties below are run.\<close>

definition S0 :: sngraz where
  "S0 = \<lparr>username = ''u'', password = ''p'', time_zone = 0, installations = [], jwt = PNone\<rparr>"

definition W0 :: world where
  "W0 = \<lparr>posts = [], ticks = 0\<rparr>"

definition M0 :: meter where
  "M0 = \<lparr>meter_id = PNum 7, name = PStr ''n'', short_name = PStr ''s'', opt_state = PStr ''OptIn'',
          data = PNone, first_reading = PNone, first_reading_date = None,
          last_consumption_date = None, last_consumption = PNone,
          last_reading_date = None, last_reading = PNone\<rparr>"

text \<open>A transport that always fails, one that fails twice and then answers, one that always times out, and one that always answers 500.\<close>

definition E_down :: env where
  "E_down = \<lparr>transport = (\<lambda>n. RaiseClientError), clock = (\<lambda>n. 0),
     jwt_parse = (\<lambda>t. Malformed), fromisoformat = (\<lambda>t. None)\<rparr>"

definition E_flaky :: env where
  "E_flaky = \<lparr>transport = (\<lambda>n. if n < 2 then RaiseClientError else Response 200 (PList [])),
     clock = (\<lambda>n. 0), jwt_parse = (\<lambda>t. Malformed), fromisoformat = (\<lambda>t. None)\<rparr>"

definition E_slow :: env where
  "E_slow = \<lparr>transport = (\<lambda>n. RaiseTimeout),
     clock = (\<lambda>n. 0), jwt_parse = (\<lambda>t. Malformed), fromisoformat = (\<lambda>t. None)\<rparr>"

definition E_500 :: env where
  "E_500 = \<lparr>transport = (\<lambda>n. Response 500 PNone),
     clock = (\<lambda>n. 0), jwt_parse = (\<lambda>t. Malformed), fromisoformat = (\<lambda>t. None)\<rparr>"

text \<open>
  A clock at 1700000000 seconds and a token parser that knows an expired token, a token
  good until 1800000000, and a token without expiry; \<open>E_resp body\<close> answers every
  request with status 200 and that body.
\<close>

definition E_jwt :: env where
  "E_jwt = \<lparr>transport = (\<lambda>n. RaiseTimeout), clock = (\<lambda>n. 1700000000000000),
     jwt_parse = (\<lambda>t. if t = ''old'' then Claims (Some 1600000000)
                       else if t = ''new'' then Claims (Some 1800000000)
                       else if t = ''forever'' then Claims None else Malformed),
     fromisoformat = (\<lambda>t. None)\<rparr>"

definition E_resp :: "pyval \<Rightarrow> env" where
  "E_resp body = E_jwt\<lparr>transport := (\<lambda>n. Response 200 body)\<rparr>"

text \<open>
  \<open>E_script evs\<close> answers the n-th request with the n-th event of \<open>evs\<close> (and times out
  after the last); its \<^verbatim>\<open>fromisoformat\<close> knows the timestamps of \<open>iso_table\<close>.
\<close>

definition day :: "int \<Rightarrow> int option \<Rightarrow> datetime" where
  "day n tz = \<lparr>ordinal = n, hour = 0, minute = 0, second = 0, microsecond = 0, tzinfo = tz\<rparr>"

definition iso_table :: "(string \<times> datetime) list" where
  "iso_table =
     [(''2024-01-01T00:30:00'', (day 738886 None)\<lparr>minute := 30\<rparr>),
      (''2024-01-04T00:00:00+00:00'', day 738889 (Some 0)),
      (''2024-01-05T00:00:00+00:00'', day 738890 (Some 0)),
      (''2024-01-06T00:00:00+00:00'', day 738891 (Some 0)),
      (''9999-12-20T00:00:00'', day 3652048 None)]"

definition E_script :: "http_event list \<Rightarrow> env" where
  "E_script evs = E_jwt\<lparr>transport := (\<lambda>n. if n < length evs then evs ! n else RaiseTimeout),
                        fromisoformat := map_of iso_table\<rparr>"

definition sub_value :: "string \<Rightarrow> rat \<Rightarrow> string \<Rightarrow> pyval" where
  "sub_value ty v st =
     PDict [(PStr ''readingType'', PStr ty), (PStr ''value'', PNum v), (PStr ''readingState'', PStr st)]"

definition raw_reading :: "string \<Rightarrow> pyval list \<Rightarrow> pyval" where
  "raw_reading t rvs = PDict [(PStr ''readTime'', PStr t), (PStr ''readingValues'', PList rvs)]"

text \<open>The example of the specification: one valid sub-value and one estimated; then a reading with estimated sub-values only.\<close>

definition readings0 :: "pyval list" where
  "readings0 =
     [raw_reading ''2024-01-05T00:00:00Z'' [sub_value ''CONSUMP'' 5 ''Valid'', sub_value ''MR'' 9 ''Estimated''],
      raw_reading ''2024-01-06T00:00:00Z'' [sub_value ''MR'' 9 ''Estimated'']]"

text \<open>
  A session with a valid token, and an answer to \<^verbatim>\<open>getInstallations\<close> with three records:
  one with id 0, one without id, and one with id 5 and the meter points 0 and 9.
\<close>

definition S_tok :: sngraz where
  "S_tok = S0\<lparr>jwt := PStr ''new''\<rparr>"

definition meter_point :: "rat \<Rightarrow> pyval" where
  "meter_point n =
     PDict [(PStr ''meterPointID'', PNum n), (PStr ''name'', PStr ''n''), (PStr ''shortName'', PStr ''s''),
            (PStr ''optState'', PDict [(PStr ''currentOptState'', PStr ''OptIn'')])]"

definition installations0 :: pyval where
  "installations0 =
     PList [PDict [(PStr ''installationID'', PNum 0), (PStr ''meterPoints'', PList [meter_point 3])],
            PDict [(PStr ''meterPoints'', PList [meter_point 4])],
            PDict [(PStr ''installationID'', PNum 5), (PStr ''meterPoints'', PList [meter_point 0, meter_point 9])]]"

text \<open>
  A server that answers the request for the metadata of a meter and then the request for
  its readings; a window from 2023-12-26 to 2024-01-10 13:45:07.123456 (UTC); and the
  meter \<open>M0\<close> in the daily mode.
\<close>

definition meta0 :: pyval where
  "meta0 = PDict [(PStr ''readingsAvailableSince'', PStr ''2024-01-01T00:30:00'')]"

definition E_meter :: env where
  "E_meter = E_script [Response 200 meta0, Response 200 (PDict [(PStr ''readings'', PList readings0)])]"

definition start0 :: datetime where
  "start0 = day 738880 (Some 0)"

definition end0 :: datetime where
  "end0 = (day 738895 (Some 0))\<lparr>hour := 13, minute := 45, second := 7, microsecond := 123456\<rparr>"

definition M_mid :: meter where
  "M_mid = M0\<lparr>opt_state := PStr ''OptMiddle''\<rparr>"

text \<open>
  A server that answers a second request for readings with an older reading (2024-01-04,
  consumption 3 and meter reading 100), and the meter after a first fetch.
\<close>

definition readings1 :: "pyval list" where
  "readings1 =
     [raw_reading ''2024-01-04T00:00:00Z'' [sub_value ''CONSUMP'' 3 ''Valid'', sub_value ''MR'' 100 ''Valid'']]"

definition E_two :: env where
  "E_two = E_script [Response 200 meta0, Response 200 (PDict [(PStr ''readings'', PList readings0)]),
                     Response 200 (PDict [(PStr ''readings'', PList readings1)])]"

definition record0 :: pyval where
  "record0 =
     PDict [(PStr ''CONSUMP'', PNum 5),
            (PStr ''readTime'', PDate (day 738890 (Some 0))),
            (PStr ''readingValues'', PList [sub_value ''CONSUMP'' 5 ''Valid'', sub_value ''MR'' 9 ''Estimated''])]"

definition M_one :: meter where
  "M_one = M_mid\<lparr>first_reading_date := Some (day 738886 (Some 0)),
                  last_consumption_date := Some (day 738890 (Some 0)), last_consumption := PNum 5\<rparr>"

definition M_two :: meter where
  "M_two = M_one\<lparr>last_reading_date := Some (day 738889 (Some 0)), last_reading := PNum 100\<rparr>"

text \<open>
  A server whose first reading of the meter is an absolute reading of 0 (a new meter),
  and which answers a later request for readings with \<open>readings1\<close>.
\<close>

definition readings_zero :: "pyval list" where
  "readings_zero = [raw_reading ''2024-01-05T00:00:00Z'' [sub_value ''MR'' 0 ''Valid'']]"

definition E_zero :: env where
  "E_zero = E_script [Response 200 meta0, Response 200 (PDict [(PStr ''readings'', PList readings_zero)]),
                      Response 200 (PDict [(PStr ''readings'', PList readings1)])]"









section \<open>The raw request primitive\<close>

lemma ok_cases:
  "ok e s w = (b, s1, w1) \<Longrightarrow> posts w1 = posts w \<and> (b \<longrightarrow> s1 = s \<and> (\<exists>t. jwt s = PStr t))"
  by (auto simp: ok_def jwt_decode_def split: if_splits sum.splits pyval.splits jwt_payload.splits option.splits)

lemma post_result:
  assumes "post e path payload s w = (r, s1, w1)"
  shows "r = Inr (transport e (length (posts w))) \<and> length (posts w1) = Suc (length (posts w))
         \<and> take (length (posts w)) (posts w1) = posts w
         \<and> req_path (last (posts w1)) = path \<and> req_payload (last (posts w1)) = payload"
proof -
  obtain b s' w' where o: "ok e s w = (b, s', w')" by (cases "ok e s w") auto
  from ok_cases[OF o] assms o show ?thesis
    by (auto simp: post_def split: if_splits pyval.splits)
qed

lemma u_query_all_fail:
  "(\<forall>i\<le>r. transport e (length (posts w) + i) = RaiseClientError) \<Longrightarrow>
   u_query e path payload r s w = (res, s', w') \<Longrightarrow>
   res = Inl ClientError \<and> length (posts w') = length (posts w) + r + 1"
proof (induction r arbitrary: s w)
  case 0
  obtain x s1 w1 where p: "post e path payload s w = (x, s1, w1)" by (cases "post e path payload s w") auto
  from post_result[OF p] 0 p show ?case by (auto simp: u_query.simps)
next
  case (Suc r)
  obtain x s1 w1 where p: "post e path payload s w = (x, s1, w1)" by (cases "post e path payload s w") auto
  note pr = post_result[OF p]
  from Suc.prems(1) have t0: "transport e (length (posts w)) = RaiseClientError" by (metis add.right_neutral le0)
  have rest: "\<forall>i\<le>r. transport e (length (posts w1) + i) = RaiseClientError"
  proof (intro allI impI)
    fix i assume "i \<le> r"
    then have "Suc i \<le> Suc r" by simp
    with Suc.prems(1) have "transport e (length (posts w) + Suc i) = RaiseClientError" by blast
    with pr show "transport e (length (posts w1) + i) = RaiseClientError" by simp
  qed
  from Suc.prems(2) p pr t0 have "u_query e path payload r s1 w1 = (res, s', w')"
    by (simp add: u_query.simps)
  from Suc.IH[OF rest this] pr show ?case by simp
qed

lemma u_query_after_fails:
  "k \<le> r \<Longrightarrow> (\<forall>i<k. transport e (length (posts w) + i) = RaiseClientError) \<Longrightarrow>
   transport e (length (posts w) + k) = ev \<Longrightarrow> ev \<noteq> RaiseClientError \<Longrightarrow>
   u_query e path payload r s w = (res, s', w') \<Longrightarrow>
   res = (case ev of RaiseTimeout \<Rightarrow> Inl TimeoutError
          | Response st body \<Rightarrow> if st \<noteq> 200 then Inr PNone else Inr body
          | RaiseClientError \<Rightarrow> Inl ClientError)
   \<and> length (posts w') = length (posts w) + k + 1"
proof (induction k arbitrary: r s w)
  case 0
  obtain x s1 w1 where p: "post e path payload s w = (x, s1, w1)" by (cases "post e path payload s w") auto
  from post_result[OF p] 0 p show ?case by (cases ev) (auto simp: u_query.simps split: if_splits)
next
  case (Suc k)
  then obtain r' where r: "r = Suc r'" "k \<le> r'" by (cases r) auto
  obtain x s1 w1 where p: "post e path payload s w = (x, s1, w1)" by (cases "post e path payload s w") auto
  note pr = post_result[OF p]
  from Suc.prems(2) have t0: "transport e (length (posts w)) = RaiseClientError" by (metis add.right_neutral zero_less_Suc)
  have rest: "\<forall>i<k. transport e (length (posts w1) + i) = RaiseClientError"
  proof (intro allI impI)
    fix i assume "i < k"
    then have "Suc i < Suc k" by simp
    with Suc.prems(2) have "transport e (length (posts w) + Suc i) = RaiseClientError" by blast
    with pr show "transport e (length (posts w1) + i) = RaiseClientError" by simp
  qed
  from Suc.prems(3) pr have ev: "transport e (length (posts w1) + k) = ev" by simp
  from Suc.prems(5) p pr t0 r have "u_query e path payload r' s1 w1 = (res, s', w')"
    by (simp add: u_query.simps)
  from Suc.IH[OF r(2) rest ev Suc.prems(4) this] pr show ?case by simp
qed

text \<open>
  Claim C1. A call of \<open>u_query\<close> with the default budget \<open>retry = 2\<close>, started when
  \<open>n\<close> requests have been posted. If the three attempts \<open>n\<close>, \<open>n + 1\<close>, \<open>n + 2\<close> all end in
  a connection error, the call raises \<open>ClientError\<close> after exactly three attempts. If
  \<open>k \<le> 2\<close> attempts end in a connection error and the next one times out, the call
  raises \<open>TimeoutError\<close> after \<open>k + 1\<close> attempts (one attempt when the first one times
  out); if the next one answers with a status other than 200, the call returns
  \<open>PNone\<close> after \<open>k + 1\<close> attempts and raises nothing; if it answers 200, the body is
  returned.
\<close>

theorem u_query_retry_policy:
  assumes "u_query e path payload 2 s w = (res, s', w')"
  shows "((\<forall>i\<le>2. transport e (length (posts w) + i) = RaiseClientError) \<longrightarrow>
            res = Inl ClientError \<and> length (posts w') = length (posts w) + 3)
       \<and> (\<forall>k\<le>2. (\<forall>i<k. transport e (length (posts w) + i) = RaiseClientError) \<longrightarrow>
            (transport e (length (posts w) + k) = RaiseTimeout \<longrightarrow>
               res = Inl TimeoutError \<and> length (posts w') = length (posts w) + k + 1)
          \<and> (\<forall>st body. transport e (length (posts w) + k) = Response st body \<longrightarrow>
               st \<noteq> 200 \<longrightarrow> res = Inr PNone \<and> length (posts w') = length (posts w) + k + 1)
          \<and> (\<forall>body. transport e (length (posts w) + k) = Response 200 body \<longrightarrow>
               res = Inr body \<and> length (posts w') = length (posts w) + k + 1))"
proof (intro conjI allI impI)
  assume "\<forall>i\<le>2. transport e (length (posts w) + i) = RaiseClientError"
  from u_query_all_fail[OF this assms]
  show "res = Inl ClientError" "length (posts w') = length (posts w) + 3" by simp_all
next
  fix k :: nat
  assume k: "k \<le> 2" and f: "\<forall>i<k. transport e (length (posts w) + i) = RaiseClientError"
  {
    assume t: "transport e (length (posts w) + k) = RaiseTimeout"
    from u_query_after_fails[OF k f t _ assms]
    show "res = Inl TimeoutError" "length (posts w') = length (posts w) + k + 1" by simp_all
  }
  {
    fix st body
    assume t: "transport e (length (posts w) + k) = Response st body" and st: "st \<noteq> 200"
    from u_query_after_fails[OF k f t _ assms] st
    show "res = Inr PNone" "length (posts w') = length (posts w) + k + 1" by simp_all
  }
  {
    fix body
    assume t: "transport e (length (posts w) + k) = Response 200 body"
    from u_query_after_fails[OF k f t _ assms]
    show "res = Inr body" "length (posts w') = length (posts w) + k + 1" by simp_all
  }
qed

theorem u_query_retry_policy_witness:
  "(\<exists>s' w'. u_query E_down ''login'' PNone 2 S0 W0 = (Inl ClientError, s', w') \<and> length (posts w') = 3)
   \<and> (\<exists>s' w'. u_query E_flaky ''login'' PNone 2 S0 W0 = (Inr (PList []), s', w') \<and> length (posts w') = 3)
   \<and> (\<exists>s' w'. u_query E_slow ''login'' PNone 2 S0 W0 = (Inl TimeoutError, s', w') \<and> length (posts w') = 1)
   \<and> (\<exists>s' w'. u_query E_500 ''login'' PNone 2 S0 W0 = (Inr PNone, s', w') \<and> length (posts w') = 1)"
proof -
  obtain r1 s1 w1 where a: "u_query E_down ''login'' PNone 2 S0 W0 = (r1, s1, w1)"
    using prod_cases3 by blast
  obtain r2 s2 w2 where b: "u_query E_flaky ''login'' PNone 2 S0 W0 = (r2, s2, w2)"
    using prod_cases3 by blast
  obtain r3 s3 w3 where c: "u_query E_slow ''login'' PNone 2 S0 W0 = (r3, s3, w3)"
    using prod_cases3 by blast
  obtain r4 s4 w4 where d: "u_query E_500 ''login'' PNone 2 S0 W0 = (r4, s4, w4)"
    using prod_cases3 by blast
  have "r1 = Inl ClientError \<and> length (posts w1) = 3"
    using u_query_retry_policy[OF a, THEN conjunct1] by (simp add: E_down_def W0_def)
  moreover have "r2 = Inr (PList []) \<and> length (posts w2) = 3"
    using u_query_retry_policy[OF b, THEN conjunct2, THEN spec, of 2] by (simp add: E_flaky_def W0_def)
  moreover have "r3 = Inl TimeoutError \<and> length (posts w3) = 1"
    using u_query_retry_policy[OF c, THEN conjunct2, THEN spec, of 0] by (simp add: E_slow_def W0_def)
  moreover have "r4 = Inr PNone \<and> length (posts w4) = 1"
    using u_query_retry_policy[OF d, THEN conjunct2, THEN spec, of 0] by (simp add: E_500_def W0_def)
  ultimately show ?thesis using a b c d by simp
qed

section \<open>Token validity\<close>

text \<open>
  Claim C2. \<open>ok\<close> returns \<open>False\<close> and changes nothing when no token is held. When a
  token is held it is decoded: if the decoding raises, whatever the error, \<open>ok\<close> returns
  \<open>False\<close> and the stored token is cleared; if it succeeds, \<open>ok\<close> returns \<open>True\<close> and the
  object is unchanged. The decoding looks at the structure of the token and at its
  \<^verbatim>\<open>exp\<close> claim only: a token that does not decode raises, one without \<^verbatim>\<open>exp\<close> or with
  \<^verbatim>\<open>exp\<close> in the future is accepted, and for one whose \<^verbatim>\<open>exp\<close> is in the past \<open>ok\<close>
  returns \<open>False\<close> and clears the token.
\<close>

theorem ok_token_validity:
  "(jwt s = PNone \<longrightarrow> ok e s w = (False, s, w))
   \<and> (jwt s \<noteq> PNone \<longrightarrow>
        (\<forall>err. jwt_decode e (clock e (ticks w)) (jwt s) = Inl err \<longrightarrow>
             fst (ok e s w) = False \<and> fst (snd (ok e s w)) = s\<lparr>jwt := PNone\<rparr>)
      \<and> (jwt_decode e (clock e (ticks w)) (jwt s) = Inr () \<longrightarrow>
             fst (ok e s w) = True \<and> fst (snd (ok e s w)) = s))
   \<and> (\<forall>t. jwt s = PStr t \<longrightarrow>
        (jwt_parse e t = Malformed \<longrightarrow> jwt_decode e (clock e (ticks w)) (jwt s) = Inl DecodeError)
      \<and> (jwt_parse e t = Claims None \<longrightarrow> jwt_decode e (clock e (ticks w)) (jwt s) = Inr ())
      \<and> (\<forall>ex. jwt_parse e t = Claims (Some ex) \<longrightarrow>
            (clock e (ticks w) < ex * 1000000 \<longrightarrow> jwt_decode e (clock e (ticks w)) (jwt s) = Inr ())
          \<and> (ex * 1000000 < clock e (ticks w) \<longrightarrow>
                fst (ok e s w) = False \<and> jwt (fst (snd (ok e s w))) = PNone)))"
  by (auto simp: ok_def jwt_decode_def split: sum.splits)

theorem ok_token_validity_witness:
  "ok E_jwt S0 W0 = (False, S0, W0)
   \<and> fst (ok E_jwt (S0\<lparr>jwt := PStr ''old''\<rparr>) W0) = False
   \<and> jwt (fst (snd (ok E_jwt (S0\<lparr>jwt := PStr ''old''\<rparr>) W0))) = PNone
   \<and> fst (ok E_jwt (S0\<lparr>jwt := PStr ''junk''\<rparr>) W0) = False
   \<and> fst (snd (ok E_jwt (S0\<lparr>jwt := PStr ''junk''\<rparr>) W0)) = S0
   \<and> fst (ok E_jwt (S0\<lparr>jwt := PStr ''new''\<rparr>) W0) = True
   \<and> fst (snd (ok E_jwt (S0\<lparr>jwt := PStr ''new''\<rparr>) W0)) = S0\<lparr>jwt := PStr ''new''\<rparr>"
proof -
  have a: "ok E_jwt S0 W0 = (False, S0, W0)"
    using ok_token_validity[of S0 E_jwt W0] by (simp add: S0_def)
  have d: "jwt_decode E_jwt (clock E_jwt (ticks W0)) (PStr ''junk'') = Inl DecodeError"
    using ok_token_validity[of "S0\<lparr>jwt := PStr ''junk''\<rparr>" E_jwt W0] by (simp add: E_jwt_def)
  have n: "jwt_decode E_jwt (clock E_jwt (ticks W0)) (PStr ''new'') = Inr ()"
    using ok_token_validity[of "S0\<lparr>jwt := PStr ''new''\<rparr>" E_jwt W0] by (simp add: E_jwt_def)
  have b: "fst (ok E_jwt (S0\<lparr>jwt := PStr ''old''\<rparr>) W0) = False
           \<and> jwt (fst (snd (ok E_jwt (S0\<lparr>jwt := PStr ''old''\<rparr>) W0))) = PNone"
    using ok_token_validity[of "S0\<lparr>jwt := PStr ''old''\<rparr>" E_jwt W0] by (simp add: E_jwt_def)
  have c: "fst (ok E_jwt (S0\<lparr>jwt := PStr ''junk''\<rparr>) W0) = False
           \<and> fst (snd (ok E_jwt (S0\<lparr>jwt := PStr ''junk''\<rparr>) W0)) = S0"
    using ok_token_validity[of "S0\<lparr>jwt := PStr ''junk''\<rparr>" E_jwt W0] d by (simp add: S0_def)
  have f: "fst (ok E_jwt (S0\<lparr>jwt := PStr ''new''\<rparr>) W0) = True
           \<and> fst (snd (ok E_jwt (S0\<lparr>jwt := PStr ''new''\<rparr>) W0)) = S0\<lparr>jwt := PStr ''new''\<rparr>"
    using ok_token_validity[of "S0\<lparr>jwt := PStr ''new''\<rparr>" E_jwt W0] n by simp
  from a b c f show ?thesis by simp
qed


section \<open>Authentication\<close>

text \<open>
  Claim C6. When the login request returns a JSON object: if it has an \<^verbatim>\<open>error\<close> entry
  other than the empty string, \<open>authenticate\<close> raises \<open>InvalidLogin\<close> with that entry.
  Otherwise, if it has a \<^verbatim>\<open>success\<close> entry that is false, or no \<^verbatim>\<open>token\<close>, or an empty
  one, \<open>authenticate\<close> raises \<open>ValueError\<close>. Otherwise the token is stored and \<open>ok\<close> is
  asked about it: if the stored token is valid \<open>authenticate\<close> returns \<open>True\<close> and the
  object holds the token; if not it raises the exception \<^verbatim>\<open>login failed\<close> and the token
  is cleared again.
\<close>

theorem authenticate_outcomes:
  assumes "u_query e ''login''
             (PDict [(PStr ''email'', PStr (username s)), (PStr ''password'', PStr (password s))]) 2 s w
           = (Inr (PDict d), s1, w1)"
  shows "(\<forall>msg. map_of d (PStr ''error'') = Some msg \<longrightarrow> msg \<noteq> PStr [] \<longrightarrow>
            authenticate e s w = (Inl (InvalidLogin msg), s1, w1))
       \<and> ((map_of d (PStr ''error'') = None \<or> map_of d (PStr ''error'') = Some (PStr [])) \<longrightarrow>
            (((\<exists>v. map_of d (PStr ''success'') = Some v \<and> \<not> truthy v)
               \<or> map_of d (PStr ''token'') = None
               \<or> (\<exists>tok. map_of d (PStr ''token'') = Some tok \<and> \<not> truthy tok)) \<longrightarrow>
                authenticate e s w = (Inl ValueError, s1, w1))
          \<and> (\<forall>tok. (map_of d (PStr ''success'') = None \<or> (\<exists>v. map_of d (PStr ''success'') = Some v \<and> truthy v)) \<longrightarrow>
                 map_of d (PStr ''token'') = Some tok \<longrightarrow> truthy tok \<longrightarrow>
                   (fst (ok e (s1\<lparr>jwt := tok\<rparr>) w1) \<longrightarrow>
                       fst (authenticate e s w) = Inr True
                     \<and> fst (snd (authenticate e s w)) = s1\<lparr>jwt := tok\<rparr>)
                 \<and> (\<not> fst (ok e (s1\<lparr>jwt := tok\<rparr>) w1) \<longrightarrow>
                       fst (authenticate e s w) = Inl (PyException ''login failed'')
                     \<and> jwt (fst (snd (authenticate e s w))) = PNone)))"
proof (intro conjI allI impI)
  fix msg assume "map_of d (PStr ''error'') = Some msg" "msg \<noteq> PStr []"
  with assms show "authenticate e s w = (Inl (InvalidLogin msg), s1, w1)"
    by (simp add: authenticate_def py_and_def py_ne_def)
next
  assume ne: "map_of d (PStr ''error'') = None \<or> map_of d (PStr ''error'') = Some (PStr [])"
     and bad: "(\<exists>v. map_of d (PStr ''success'') = Some v \<and> \<not> truthy v)
               \<or> map_of d (PStr ''token'') = None
               \<or> (\<exists>tok. map_of d (PStr ''token'') = Some tok \<and> \<not> truthy tok)"
  from ne have c1: "py_and (py_in ''error'' (PDict d)) (py_ne (py_get (PDict d) ''error'') (PStr [])) = Inr False"
    by (auto simp: py_and_def py_ne_def)
  from bad have c2: "py_or (py_and (py_in ''success'' (PDict d)) (py_not (py_get (PDict d) ''success'')))
                             (py_not (py_get (PDict d) ''token'')) = Inr True"
    by (auto simp: py_and_def py_or_def py_not_def split: option.splits)
  from assms c1 c2 show "authenticate e s w = (Inl ValueError, s1, w1)"
    by (simp add: authenticate_def)
next
  fix tok
  assume ne: "map_of d (PStr ''error'') = None \<or> map_of d (PStr ''error'') = Some (PStr [])"
     and su: "map_of d (PStr ''success'') = None \<or> (\<exists>v. map_of d (PStr ''success'') = Some v \<and> truthy v)"
     and tk: "map_of d (PStr ''token'') = Some tok" "truthy tok"
  from ne have c1: "py_and (py_in ''error'' (PDict d)) (py_ne (py_get (PDict d) ''error'') (PStr [])) = Inr False"
    by (auto simp: py_and_def py_ne_def)
  from su tk have c2: "py_or (py_and (py_in ''success'' (PDict d)) (py_not (py_get (PDict d) ''success'')))
                             (py_not (py_get (PDict d) ''token'')) = Inr False"
    by (auto simp: py_and_def py_or_def py_not_def split: option.splits)
  obtain b s2 w2 where o: "ok e (s1\<lparr>jwt := tok\<rparr>) w1 = (b, s2, w2)"
    using prod_cases3 by blast
  from assms c1 c2 tk o have au: "authenticate e s w =
      (if \<not> b then (Inl (PyException ''login failed''), s2, w2) else (Inr True, s2, w2))"
    by (simp add: authenticate_def)
  {
    assume "fst (ok e (s1\<lparr>jwt := tok\<rparr>) w1)"
    with o ok_cases[OF o] au
    show "fst (authenticate e s w) = Inr True" "fst (snd (authenticate e s w)) = s1\<lparr>jwt := tok\<rparr>"
      by simp_all
  }
  {
    assume nb: "\<not> fst (ok e (s1\<lparr>jwt := tok\<rparr>) w1)"
    with o au show "fst (authenticate e s w) = Inl (PyException ''login failed'')" by simp
    from nb o have "jwt s2 = PNone"
      by (auto simp: ok_def split: if_splits sum.splits)
    with nb o au show "jwt (fst (snd (authenticate e s w))) = PNone" by simp
  }
qed

lemma u_query_E_resp:
  "u_query (E_resp body) path payload 2 S0 W0 =
     (Inr body, S0, W0\<lparr>posts := [\<lparr>req_path = path, req_payload = payload, req_authorization = None\<rparr>]\<rparr>)"
  by (simp add: u_query.simps post_def ok_def E_resp_def E_jwt_def S0_def W0_def)

theorem authenticate_outcomes_witness:
  "fst (authenticate (E_resp (PDict [(PStr ''error'', PStr ''wrong password'')])) S0 W0)
     = Inl (InvalidLogin (PStr ''wrong password''))
   \<and> fst (authenticate (E_resp (PDict [(PStr ''success'', PBool False), (PStr ''token'', PStr ''new'')])) S0 W0)
     = Inl ValueError
   \<and> fst (authenticate (E_resp (PDict [(PStr ''success'', PBool True)])) S0 W0) = Inl ValueError
   \<and> fst (authenticate (E_resp (PDict [(PStr ''token'', PStr ''old'')])) S0 W0) = Inl (PyException ''login failed'')
   \<and> jwt (fst (snd (authenticate (E_resp (PDict [(PStr ''token'', PStr ''old'')])) S0 W0))) = PNone
   \<and> fst (authenticate (E_resp (PDict [(PStr ''token'', PStr ''new'')])) S0 W0) = Inr True
   \<and> jwt (fst (snd (authenticate (E_resp (PDict [(PStr ''token'', PStr ''new'')])) S0 W0))) = PStr ''new''"
proof -
  have q: "\<And>d. u_query (E_resp (PDict d)) ''login''
             (PDict [(PStr ''email'', PStr (username S0)), (PStr ''password'', PStr (password S0))]) 2 S0 W0
           = (Inr (PDict d), S0, W0\<lparr>posts := [\<lparr>req_path = ''login'',
                req_payload = PDict [(PStr ''email'', PStr (username S0)), (PStr ''password'', PStr (password S0))],
                req_authorization = None\<rparr>]\<rparr>)"
    by (rule u_query_E_resp)
  have okold: "\<And>w. \<not> fst (ok (E_resp (PDict [(PStr ''token'', PStr ''old'')])) (S0\<lparr>jwt := PStr ''old''\<rparr>) w)"
    by (simp add: ok_def jwt_decode_def E_resp_def E_jwt_def)
  have oknew: "\<And>w. fst (ok (E_resp (PDict [(PStr ''token'', PStr ''new'')])) (S0\<lparr>jwt := PStr ''new''\<rparr>) w)"
    by (simp add: ok_def jwt_decode_def E_resp_def E_jwt_def)
  have a: "fst (authenticate (E_resp (PDict [(PStr ''error'', PStr ''wrong password'')])) S0 W0)
     = Inl (InvalidLogin (PStr ''wrong password''))"
    using authenticate_outcomes[OF q, THEN conjunct1] by simp
  have b: "fst (authenticate (E_resp (PDict [(PStr ''success'', PBool False), (PStr ''token'', PStr ''new'')])) S0 W0)
     = Inl ValueError"
    using authenticate_outcomes[OF q, THEN conjunct2, THEN mp, THEN conjunct1] by simp
  have c: "fst (authenticate (E_resp (PDict [(PStr ''success'', PBool True)])) S0 W0) = Inl ValueError"
    using authenticate_outcomes[OF q, THEN conjunct2, THEN mp, THEN conjunct1] by simp
  have d: "fst (authenticate (E_resp (PDict [(PStr ''token'', PStr ''old'')])) S0 W0) = Inl (PyException ''login failed'')
    \<and> jwt (fst (snd (authenticate (E_resp (PDict [(PStr ''token'', PStr ''old'')])) S0 W0))) = PNone"
    using authenticate_outcomes[OF q, THEN conjunct2, THEN mp, THEN conjunct2, THEN spec, of _ "PStr ''old''"] okold
    by simp
  have f: "fst (authenticate (E_resp (PDict [(PStr ''token'', PStr ''new'')])) S0 W0) = Inr True
   \<and> jwt (fst (snd (authenticate (E_resp (PDict [(PStr ''token'', PStr ''new'')])) S0 W0))) = PStr ''new''"
    using authenticate_outcomes[OF q, THEN conjunct2, THEN mp, THEN conjunct2, THEN spec, of _ "PStr ''new''"] oknew
    by simp
  from a b c d f show ?thesis by simp
qed


section \<open>The fetched records\<close>

lemma values_loop_map:
  "values_loop rvs acc = Inr res \<Longrightarrow>
     map_of res = map_of (rev (entries rvs) @ acc) \<and> (res = [] \<longleftrightarrow> acc = [] \<and> entries rvs = [])"
proof (induction rvs arbitrary: acc)
  case Nil
  then show ?case by (simp add: entries_def)
next
  case (Cons rv rvs)
  obtain d where rv: "rv = PDict d"
    using Cons.prems by (cases rv) (auto simp: py_ne_def)
  show ?case
  proof (cases "field rv ''readingState'' = PStr ''Valid''")
    case False
    with Cons.prems rv have "values_loop rvs acc = Inr res"
      by (auto simp: py_ne_def field_def split: option.splits)
    from Cons.IH[OF this] False show ?thesis by (simp add: entries_def)
  next
    case True
    let ?k = "field rv ''readingType''" and ?v = "field rv ''value''"
    from Cons.prems rv True have h: "hashable ?k" and "values_loop rvs (AList.update ?k ?v acc) = Inr res"
      by (auto simp: py_ne_def field_def py_setitem_def split: option.splits if_splits)
    from Cons.IH[OF this(2)] True have
      m: "map_of res = map_of (rev (entries rvs) @ AList.update ?k ?v acc)"
      and n: "res \<noteq> []"
      by (auto simp: entries_def)
    have "map_of (rev (entries rvs) @ AList.update ?k ?v acc)
          = map_of (rev (entries (rv # rvs)) @ acc)"
      using True by (simp add: entries_def update_conv' map_add_def fun_eq_iff split: option.splits)
    with m n True show ?thesis by (simp add: entries_def)
  qed
qed

lemma process_reading_result:
  assumes "process_reading e reading m = (Inr r, m')"
  shows "(case r of None \<Rightarrow> valid_entries reading = [] \<and> m' = m
          | Some rec \<Rightarrow> valid_entries reading \<noteq> [] \<and> record_of reading rec)"
proof -
  from assms obtain rvl where rvl: "py_get reading ''readingValues'' = Inr rvl"
    by (auto simp: process_reading_def split: sum.splits)
  from assms rvl obtain rvs where rvs: "py_iter rvl = Inr rvs"
    by (auto simp: process_reading_def split: sum.splits)
  from assms rvl rvs obtain res where res: "values_loop rvs [] = Inr res"
    by (auto simp: process_reading_def split: sum.splits)
  from rvl rvs have ve: "valid_entries reading = entries rvs" and f: "field reading ''readingValues'' = rvl"
    by (simp_all add: valid_entries_def field_def)
  note vm = values_loop_map[OF res]
  show ?thesis
  proof (cases "res = []")
    case True
    with assms rvl rvs res vm ve show ?thesis by (simp add: process_reading_def)
  next
    case False
    with assms rvl rvs res obtain t where
      r: "r = Some (PDict (AList.update (PStr ''readingValues'') rvl (AList.update (PStr ''readTime'') (PDate t) res)))"
      by (auto simp: process_reading_def split: sum.splits prod.splits)
    from vm have "map_of res = map_of (rev (entries rvs))" by simp
    with r False vm ve f show ?thesis
      by (auto simp: record_of_def update_conv')
  qed
qed

lemma readings_loop_result:
  "readings_loop e rs acc m = (Inr result, m') \<Longrightarrow>
     \<exists>news. result = acc @ news \<and> list_all2 record_of (filter (\<lambda>reading. valid_entries reading \<noteq> []) rs) news"
proof (induction rs arbitrary: acc m)
  case Nil
  then show ?case by simp
next
  case (Cons reading rs)
  from Cons.prems obtain r m1 where p: "process_reading e reading m = (Inr r, m1)"
    by (auto split: prod.splits sum.splits)
  note pr = process_reading_result[OF p]
  show ?case
  proof (cases r)
    case None
    with Cons.prems p have "readings_loop e rs acc m1 = (Inr result, m')" by simp
    from Cons.IH[OF this] pr None show ?thesis by simp
  next
    case (Some rec)
    with Cons.prems p have "readings_loop e rs (acc @ [rec]) m1 = (Inr result, m')" by simp
    from Cons.IH[OF this] obtain news where "result = (acc @ [rec]) @ news"
      "list_all2 record_of (filter (\<lambda>reading. valid_entries reading \<noteq> []) rs) news" by blast
    with pr Some show ?thesis by (intro exI[of _ "rec # news"]) simp
  qed
qed


lemmas test_defs = E_script_def E_jwt_def iso_table_def day_def sub_value_def raw_reading_def
  M0_def S0_def W0_def

lemma readings0_run:
  "readings_loop (E_script []) readings0 [] M0 =
     (Inr [PDict [(PStr ''CONSUMP'', PNum 5),
                  (PStr ''readTime'', PDate (day 738890 (Some 0))),
                  (PStr ''readingValues'', PList [sub_value ''CONSUMP'' 5 ''Valid'', sub_value ''MR'' 9 ''Estimated''])]],
      M0\<lparr>last_consumption_date := Some (day 738890 (Some 0)), last_consumption := PNum 5\<rparr>)"
  by (simp add: readings0_def process_reading_def py_ne_def py_setitem_def patch_z_def
       py_fromisoformat_def track_consumption_def track_reading_def test_defs)


text \<open>
  Claim C3. When the loop over the readings of a response ends without an exception, the
  fetched sequence consists, in the order of the server, of one record for each raw
  reading that has at least one sub-value in state \<^verbatim>\<open>Valid\<close>: a reading whose mapping
  is empty is left out. The record of a reading maps a reading type to the value of
  the valid sub-value of that type and has no entry for a type that only occurs in
  sub-values of another state (such as \<^verbatim>\<open>Estimated\<close>); its \<^verbatim>\<open>readingValues\<close> entry is the
  raw list of the reading, unchanged.
\<close>

theorem fetched_records:
  assumes "readings_loop e rs [] m = (Inr result, m')"
  shows "list_all2 record_of (filter (\<lambda>reading. valid_entries reading \<noteq> []) rs) result"
  using readings_loop_result[OF assms] by simp

theorem fetched_records_witness:
  "fst (readings_loop (E_script []) readings0 [] M0) =
     Inr [PDict [(PStr ''CONSUMP'', PNum 5),
                 (PStr ''readTime'', PDate (day 738890 (Some 0))),
                 (PStr ''readingValues'', PList [sub_value ''CONSUMP'' 5 ''Valid'', sub_value ''MR'' 9 ''Estimated''])]]
   \<and> list_all2 record_of (filter (\<lambda>reading. valid_entries reading \<noteq> []) readings0)
        [PDict [(PStr ''CONSUMP'', PNum 5),
                (PStr ''readTime'', PDate (day 738890 (Some 0))),
                (PStr ''readingValues'', PList [sub_value ''CONSUMP'' 5 ''Valid'', sub_value ''MR'' 9 ''Estimated''])]]
   \<and> filter (\<lambda>reading. valid_entries reading \<noteq> []) readings0 = [hd readings0]"
proof -
  have "filter (\<lambda>reading. valid_entries reading \<noteq> []) readings0 = [hd readings0]"
    by (simp add: readings0_def valid_entries_def entries_def field_def raw_reading_def sub_value_def)
  with fetched_records[OF readings0_run] readings0_run show ?thesis by simp
qed


section \<open>Installations and meters without an id\<close>

lemma set_update_subset:
  "set (AList.update k v al) \<subseteq> insert (k, v) (set al)"
  by (induction al) auto

lemma meters_loop_truthy:
  "meters_loop xs ms = Inr ms' \<Longrightarrow> list_all (\<lambda>(mid, m). truthy mid) ms \<Longrightarrow>
   list_all (\<lambda>(mid, m). truthy mid) ms'"
proof (induction xs arbitrary: ms)
  case Nil
  then show ?case by simp
next
  case (Cons x xs)
  from Cons.prems(1) obtain mid where g: "py_get x ''meterPointID'' = Inr mid"
    by (auto split: sum.splits)
  show ?case
  proof (cases "truthy mid")
    case False
    with Cons.prems g have "meters_loop xs ms = Inr ms'" by simp
    from Cons.IH[OF this Cons.prems(2)] show ?thesis .
  next
    case True
    with Cons.prems(1) g obtain m where "meters_loop xs (AList.update mid m ms) = Inr ms'"
      by (auto simp: py_setitem_def split: sum.splits if_splits)
    moreover have "list_all (\<lambda>(mid, m). truthy mid) (AList.update mid m ms)"
      using Cons.prems(2) True set_update_subset[of mid m ms] by (auto simp: list_all_iff)
    ultimately show ?thesis by (rule Cons.IH)
  qed
qed

lemma SNGrazInstallation_init_truthy:
  "SNGrazInstallation_init iid info = Inr inst \<Longrightarrow> list_all (\<lambda>(mid, m). truthy mid) (meters inst)"
  by (auto simp: SNGrazInstallation_init_def split: sum.splits dest!: meters_loop_truthy)

lemma update_loop_truthy:
  "update_loop xs insts = (r, insts') \<Longrightarrow> keys_truthy insts \<Longrightarrow> keys_truthy insts'"
proof (induction xs arbitrary: insts)
  case Nil
  then show ?case by simp
next
  case (Cons x xs)
  show ?case
  proof (cases "py_get x ''installationID''")
    case (Inl err)
    with Cons.prems show ?thesis by simp
  next
    case (Inr iid)
    show ?thesis
    proof (cases "truthy iid")
      case False
      with Cons.prems Inr have "update_loop xs insts = (r, insts')" by simp
      from Cons.IH[OF this Cons.prems(2)] show ?thesis .
    next
      case True
      show ?thesis
      proof (cases "SNGrazInstallation_init iid x")
        case (Inl err)
        with Cons.prems Inr True show ?thesis by simp
      next
        case inst: (Inr inst)
        show ?thesis
        proof (cases "hashable iid")
          case False
          with Cons.prems Inr True inst show ?thesis by (simp add: py_setitem_def)
        next
          case h: True
          with Cons.prems(1) Inr True inst have "update_loop xs (AList.update iid inst insts) = (r, insts')"
            by (simp add: py_setitem_def)
          moreover have "keys_truthy (AList.update iid inst insts)"
            using Cons.prems(2) True SNGrazInstallation_init_truthy[OF inst] set_update_subset[of iid inst insts]
            by (fastforce simp: keys_truthy_def list_all_iff)
          ultimately show ?thesis by (rule Cons.IH)
        qed
      qed
    qed
  qed
qed

lemma ok_installations: "ok e s w = (b, s1, w1) \<Longrightarrow> installations s1 = installations s"
  by (auto simp: ok_def split: if_splits sum.splits)

lemma post_installations: "post e p pl s w = (r, s1, w1) \<Longrightarrow> installations s1 = installations s"
  by (auto simp: post_def split: prod.splits if_splits pyval.splits dest: ok_installations)

lemma u_query_installations:
  "u_query e p pl n s w = (r, s1, w1) \<Longrightarrow> installations s1 = installations s"
proof (induction n arbitrary: s w)
  case 0
  then show ?case
    by (auto simp: u_query.simps split: prod.splits sum.splits http_event.splits if_splits dest: post_installations)
next
  case (Suc n)
  obtain x s' w' where p: "post e p pl s w = (x, s', w')" using prod_cases3 by blast
  from post_installations[OF p] have i: "installations s' = installations s" .
  show ?case
  proof (cases "x = Inr RaiseClientError")
    case True
    with Suc.prems p have "u_query e p pl n s' w' = (r, s1, w1)" by (simp add: u_query.simps)
    from Suc.IH[OF this] i show ?thesis by simp
  next
    case False
    with Suc.prems p i show ?thesis
      by (auto simp: u_query.simps split: sum.splits http_event.splits if_splits)
  qed
qed

lemma authenticate_installations:
  "authenticate e s w = (r, s1, w1) \<Longrightarrow> installations s1 = installations s"
  unfolding authenticate_def
  by (auto split: prod.splits sum.splits if_splits bool.splits
       dest!: u_query_installations ok_installations)

lemma query_installations:
  "query e p pl s w = (r, s1, w1) \<Longrightarrow> installations s1 = installations s"
  unfolding query_def
  by (auto split: prod.splits sum.splits if_splits
       dest!: u_query_installations ok_installations authenticate_installations)

lemma update_info_truthy:
  assumes "ids_truthy s"
  shows "ids_truthy (fst (snd (update_info e s w)))"
proof -
  obtain r s1 w1 where q: "query e ''getInstallations'' (PList []) s w = (r, s1, w1)"
    using prod_cases3 by blast
  from query_installations[OF q] assms have i: "keys_truthy (installations s1)"
    by (simp add: ids_truthy_def)
  then have s1: "ids_truthy s1" by (simp add: ids_truthy_def)
  show ?thesis
  proof (cases r)
    case (Inl err)
    with q s1 show ?thesis by (simp add: update_info_def)
  next
    case (Inr res)
    show ?thesis
    proof (cases "res = PNone \<or> (\<exists>err. py_iter res = Inl err)")
      case True
      with q s1 Inr show ?thesis by (auto simp: update_info_def)
    next
      case False
      then obtain xs where xs: "py_iter res = Inr xs" "res \<noteq> PNone" by (cases "py_iter res") auto
      obtain r' insts where u: "update_loop xs (installations s1) = (r', insts)" by (cases "update_loop xs (installations s1)") auto
      from update_loop_truthy[OF u i] have "keys_truthy insts" .
      with q Inr xs u show ?thesis by (simp add: update_info_def ids_truthy_def)
    qed
  qed
qed


text \<open>
  Claim C10. The loop of \<open>update_info\<close> skips a record whose \<^verbatim>\<open>installationID\<close> is absent,
  \<^verbatim>\<open>None\<close> or any other false value, such as the number 0; the loop of the constructor of an
  installation skips a meter point whose \<^verbatim>\<open>meterPointID\<close> is false in the same way, so
  the meters of a constructed installation all have true keys. The keys are true
  values when the object is created and stay so after every \<open>update_info\<close>, whatever
  the server answers. In such a state 0 is not among the installation ids nor among
  the meter ids of any installation, and looking 0 up raises \<open>ValueError\<close>.
\<close>

theorem falsy_ids_skipped:
  "(\<forall>iid. py_get x ''installationID'' = Inr iid \<longrightarrow> \<not> truthy iid \<longrightarrow>
       update_loop (x # xs) insts = update_loop xs insts)
   \<and> (\<forall>mid. py_get x ''meterPointID'' = Inr mid \<longrightarrow> \<not> truthy mid \<longrightarrow>
       meters_loop (x # xs) ms = meters_loop xs ms)
   \<and> (\<forall>inst. SNGrazInstallation_init iid info = Inr inst \<longrightarrow>
       list_all (\<lambda>(mid, m). truthy mid) (meters inst))
   \<and> ids_truthy (StromNetzGraz_init user pass tz)
   \<and> (ids_truthy s \<longrightarrow>
         ids_truthy (fst (snd (update_info e s w)))
       \<and> PNum 0 \<notin> set (get_installation_ids s)
       \<and> get_installation s (PNum 0) = Inl ValueError
       \<and> (\<forall>inst \<in> snd ` set (installations s).
             PNum 0 \<notin> set (get_meter_ids inst) \<and> get_meter inst (PNum 0) = Inl ValueError))"
proof (intro conjI allI impI ballI)
  fix inst assume "SNGrazInstallation_init iid info = Inr inst"
  then show "list_all (\<lambda>(mid, m). truthy mid) (meters inst)" by (rule SNGrazInstallation_init_truthy)
next
  show "ids_truthy (StromNetzGraz_init user pass tz)"
    by (simp add: ids_truthy_def keys_truthy_def StromNetzGraz_init_def)
next
  assume "ids_truthy s"
  then show "ids_truthy (fst (snd (update_info e s w)))" by (rule update_info_truthy)
next
  assume a: "ids_truthy s"
  then show n: "PNum 0 \<notin> set (get_installation_ids s)"
    by (fastforce simp: ids_truthy_def keys_truthy_def list_all_iff get_installation_ids_def)
  then have "map_of (installations s) (PNum 0) = None"
    by (simp add: get_installation_ids_def map_of_eq_None_iff)
  then show "get_installation s (PNum 0) = Inl ValueError"
    by (simp add: get_installation_def)
next
  fix inst assume a: "ids_truthy s" and i: "inst \<in> snd ` set (installations s)"
  then have "list_all (\<lambda>(mid, m). truthy mid) (meters inst)"
    by (fastforce simp: ids_truthy_def keys_truthy_def list_all_iff)
  then show n: "PNum 0 \<notin> set (get_meter_ids inst)"
    by (fastforce simp: list_all_iff get_meter_ids_def)
  then have "map_of (meters inst) (PNum 0) = None"
    by (simp add: get_meter_ids_def map_of_eq_None_iff)
  then show "get_meter inst (PNum 0) = Inl ValueError"
    by (simp add: get_meter_def)
qed simp_all

lemma update_info_run:
  "\<exists>m w'. update_info (E_script [Response 200 installations0]) S_tok W0 =
     (Inr (), S_tok\<lparr>installations :=
        [(PNum 5, \<lparr>installation_id = PNum 5, customer_id = PNone, customer_number = PNone,
                   installation_number = PNone, address = PNone, meters = [(PNum 9, m)]\<rparr>)]\<rparr>, w')"
  by (simp add: update_info_def query_def ok_def jwt_decode_def u_query.simps post_def
        installations0_def meter_point_def S_tok_def SNGrazInstallation_init_def SNGrazMeter_init_def
        py_setitem_def test_defs)

theorem falsy_ids_skipped_witness:
  "ids_truthy S_tok
   \<and> get_installation_ids (fst (snd (update_info (E_script [Response 200 installations0]) S_tok W0))) = [PNum 5]
   \<and> map (\<lambda>(iid, inst). get_meter_ids inst)
          (installations (fst (snd (update_info (E_script [Response 200 installations0]) S_tok W0)))) = [[PNum 9]]
   \<and> ids_truthy (fst (snd (update_info (E_script [Response 200 installations0]) S_tok W0)))
   \<and> get_installation (fst (snd (update_info (E_script [Response 200 installations0]) S_tok W0))) (PNum 0)
       = Inl ValueError"
proof -
  have i: "ids_truthy S_tok"
    by (simp add: ids_truthy_def keys_truthy_def S_tok_def S0_def)
  let ?s = "fst (snd (update_info (E_script [Response 200 installations0]) S_tok W0))"
  from falsy_ids_skipped[of _ _ _ _ _ _ _ _ _ S_tok "E_script [Response 200 installations0]" W0] i
  have j: "ids_truthy ?s" by blast
  from falsy_ids_skipped[of _ _ _ _ _ _ _ _ _ ?s] j
  have k: "get_installation ?s (PNum 0) = Inl ValueError" by blast
  from update_info_run i j k show ?thesis
    by (auto simp: get_installation_ids_def get_meter_ids_def)
qed


section \<open>The requests of a fetch\<close>

lemma post_posts:
  assumes "post e path payload s w = (r, s1, w1)"
  shows "\<exists>a. posts w1 = posts w @ [\<lparr>req_path = path, req_payload = payload, req_authorization = a\<rparr>]"
proof -
  obtain b s' w' where o: "ok e s w = (b, s', w')" by (cases "ok e s w") auto
  from ok_cases[OF o] assms o show ?thesis
    by (auto simp: post_def split: if_splits pyval.splits)
qed

lemma u_query_posts:
  "u_query e path payload n s w = (r, s', w') \<Longrightarrow>
   \<exists>new. posts w' = posts w @ new \<and> new \<noteq> []
         \<and> (\<forall>req\<in>set new. req_path req = path \<and> req_payload req = payload)"
proof (induction n arbitrary: s w)
  case 0
  obtain x s1 w1 where p: "post e path payload s w = (x, s1, w1)" using prod_cases3 by blast
  from post_posts[OF p] obtain a where
    a: "posts w1 = posts w @ [\<lparr>req_path = path, req_payload = payload, req_authorization = a\<rparr>]" by blast
  from 0 p have "w' = w1"
    by (auto simp: u_query.simps split: sum.splits http_event.splits if_splits)
  with a show ?case by simp
next
  case (Suc n)
  obtain x s1 w1 where p: "post e path payload s w = (x, s1, w1)" using prod_cases3 by blast
  from post_posts[OF p] obtain a where
    a: "posts w1 = posts w @ [\<lparr>req_path = path, req_payload = payload, req_authorization = a\<rparr>]" by blast
  show ?case
  proof (cases "x = Inr RaiseClientError")
    case True
    with Suc.prems p have "u_query e path payload n s1 w1 = (r, s', w')" by (simp add: u_query.simps)
    from Suc.IH[OF this] obtain new where "posts w' = posts w1 @ new"
      "\<forall>req\<in>set new. req_path req = path \<and> req_payload req = payload" by blast
    with a show ?thesis
      by (intro exI[of _ "\<lparr>req_path = path, req_payload = payload, req_authorization = a\<rparr> # new"]) simp
  next
    case False
    with Suc.prems p have "w' = w1"
      by (auto simp: u_query.simps split: sum.splits http_event.splits if_splits)
    with a show ?thesis by simp
  qed
qed

lemma authenticate_posts:
  assumes "authenticate e s w = (r, s', w')"
  shows "\<exists>new. posts w' = posts w @ new \<and> (\<forall>req\<in>set new. req_path req = ''login'')"
proof -
  obtain x s1 w1 where q: "u_query e ''login''
      (PDict [(PStr ''email'', PStr (username s)), (PStr ''password'', PStr (password s))]) 2 s w = (x, s1, w1)"
    using prod_cases3 by blast
  from u_query_posts[OF q] obtain new where n: "posts w1 = posts w @ new"
    "\<forall>req\<in>set new. req_path req = ''login''" by blast
  from assms q have "posts w' = posts w1"
    by (auto simp: authenticate_def split: sum.splits if_splits bool.splits prod.splits dest: ok_cases)
  with n show ?thesis by auto
qed

lemma query_posts:
  assumes "query e path payload s w = (r, s', w')"
  shows "\<exists>new. posts w' = posts w @ new
           \<and> (\<forall>req\<in>set new. req_path req = ''login'' \<or> (req_path req = path \<and> req_payload req = payload))
           \<and> ((\<exists>x. r = Inr x) \<longrightarrow> (\<exists>req\<in>set new. req_path req = path \<and> req_payload req = payload))"
proof -
  obtain b s1 w1 where o: "ok e s w = (b, s1, w1)" using prod_cases3 by blast
  from ok_cases[OF o] have p1: "posts w1 = posts w" by simp
  show ?thesis
  proof (cases b)
    case True
    with assms o have "u_query e path payload 2 s1 w1 = (r, s', w')" by (simp add: query_def)
    from u_query_posts[OF this] p1 show ?thesis by (metis last_in_set)
  next
    case False
    obtain x s2 w2 where a: "authenticate e s1 w1 = (x, s2, w2)" using prod_cases3 by blast
    from authenticate_posts[OF a] p1 obtain n1 where n1: "posts w2 = posts w @ n1"
      "\<forall>req\<in>set n1. req_path req = ''login''" by auto
    show ?thesis
    proof (cases x)
      case (Inl err)
      with assms o False a have "w' = w2" "r = Inl err" by (simp_all add: query_def)
      with n1 show ?thesis by auto
    next
      case (Inr v)
      with assms o False a have "u_query e path payload 2 s2 w2 = (r, s', w')" by (simp add: query_def)
      from u_query_posts[OF this] obtain n2 where n2: "posts w' = posts w2 @ n2" "n2 \<noteq> []"
        "\<forall>req\<in>set n2. req_path req = path \<and> req_payload req = payload" by blast
      with n1 show ?thesis
        by (intro exI[of _ "n1 @ n2"]) (auto intro: bexI[of _ "last n2"])
    qed
  qed
qed

lemma u_get_first_reading_date_meter_id:
  "u_get_first_reading_date e m s w = (r, m1, s1, w1) \<Longrightarrow> meter_id m1 = meter_id m"
  by (auto simp: u_get_first_reading_date_def split: option.splits prod.splits sum.splits if_splits)

lemma showdec_length: "n < 1000 \<Longrightarrow> length (showdec n) \<le> 3"
proof -
  assume n: "n < 1000"
  have a: "n div 10 < 100" using n by simp
  have b: "n div 10 div 10 < 10" using n by simp
  show ?thesis
    using b by (subst showdec.simps, subst showdec.simps, subst showdec.simps) simp
qed

lemma fmt_d_3: "0 \<le> v \<Longrightarrow> v < 1000 \<Longrightarrow> length (fmt_d 3 v) = 3"
  using showdec_length[of "nat v"] by (simp add: fmt_d_def)

lemma fetch_interval_request:
  assumes fr: "u_get_first_reading_date e m s w = (Inr (Some first), m1, s1, w1)"
    and lt: "dt_lt startTime first = Inr early"
    and fi: "fetch_interval e interval startTime endTime m s w = (r, m2, s2, w2)"
  shows "\<exists>new. posts w2 = posts w1 @ new
           \<and> (\<forall>req\<in>set new. req_path req = ''getMeterReading'' \<longrightarrow>
                req_payload req =
                  PDict [(PStr ''unitOfConsump'', PStr ''KWH''),
                         (PStr ''interval'', PStr interval),
                         (PStr ''meterPointId'', meter_id m),
                         (PStr ''fromDate'', PStr (isoformat_ms (if early then first else startTime))),
                         (PStr ''toDate'', PStr (isoformat_ms endTime))])
           \<and> ((\<exists>x. r = Inr x) \<longrightarrow> (\<exists>req\<in>set new. req_path req = ''getMeterReading''))"
proof -
  obtain frm where frm: "(if early then first else startTime) = frm" by simp
  let ?payload = "PDict [(PStr ''unitOfConsump'', PStr ''KWH''),
                         (PStr ''interval'', PStr interval),
                         (PStr ''meterPointId'', meter_id m),
                         (PStr ''fromDate'', PStr (isoformat_ms frm)),
                         (PStr ''toDate'', PStr (isoformat_ms endTime))]"
  obtain x sq wq where q: "query e ''getMeterReading'' ?payload s1 w1 = (x, sq, wq)"
    using prod_cases3 by blast
  have mid: "meter_id m1 = meter_id m" using u_get_first_reading_date_meter_id[OF fr] .
  have unf: "fetch_interval e interval startTime endTime m s w =
     (case x of Inl err \<Rightarrow> (Inl err, m1, sq, wq)
      | Inr resp \<Rightarrow> (case read_response e resp m1 of (r, m2) \<Rightarrow> (r, m2, sq, wq)))"
    by (cases x) (simp_all add: fetch_interval_def fr lt frm mid q)
  note fi' = fi[unfolded unf]
  from fi' have w2: "w2 = wq"
    by (cases x) (auto split: prod.splits)
  from fi' have rx: "(\<exists>v. r = Inr v) \<longrightarrow> (\<exists>v. x = Inr v)"
    by (cases x) (auto split: prod.splits)
  from query_posts[OF q] obtain new where n:
    "posts wq = posts w1 @ new
     \<and> (\<forall>req\<in>set new. req_path req = ''login'' \<or> (req_path req = ''getMeterReading'' \<and> req_payload req = ?payload))
     \<and> ((\<exists>v. x = Inr v) \<longrightarrow> (\<exists>req\<in>set new. req_path req = ''getMeterReading'' \<and> req_payload req = ?payload))"
    ..
  note n1 = n[THEN conjunct1] and n2 = n[THEN conjunct2, THEN conjunct1]
    and n3 = n[THEN conjunct2, THEN conjunct2]
  have A: "posts w2 = posts w1 @ new" using n1 w2 by simp
  have B: "\<forall>req\<in>set new. req_path req = ''getMeterReading'' \<longrightarrow>
                req_payload req =
                  PDict [(PStr ''unitOfConsump'', PStr ''KWH''),
                         (PStr ''interval'', PStr interval),
                         (PStr ''meterPointId'', meter_id m),
                         (PStr ''fromDate'', PStr (isoformat_ms (if early then first else startTime))),
                         (PStr ''toDate'', PStr (isoformat_ms endTime))]"
  proof (rule ballI, rule impI)
    fix req assume a: "req \<in> set new" "req_path req = ''getMeterReading''"
    from bspec[OF n2 a(1)] a(2)
    show "req_payload req =
                  PDict [(PStr ''unitOfConsump'', PStr ''KWH''),
                         (PStr ''interval'', PStr interval),
                         (PStr ''meterPointId'', meter_id m),
                         (PStr ''fromDate'', PStr (isoformat_ms (if early then first else startTime))),
                         (PStr ''toDate'', PStr (isoformat_ms endTime))]"
      by (simp add: frm)
  qed
  have C: "(\<exists>x. r = Inr x) \<longrightarrow> (\<exists>req\<in>set new. req_path req = ''getMeterReading'')"
  proof (rule impI)
    assume "\<exists>x. r = Inr x"
    with rx have "\<exists>v. x = Inr v" by simp
    with n3 obtain req where "req \<in> set new \<and> req_path req = ''getMeterReading''" by auto
    then show "\<exists>req\<in>set new. req_path req = ''getMeterReading''" by (simp add: Bex_def) (rule exI)
  qed
  show ?thesis
    by (rule exI[of _ new], rule conjI[OF A conjI[OF B C]])
qed


lemmas run_defs = query_def ok_def jwt_decode_def u_query.simps post_def
  u_get_first_reading_date_def py_fromisoformat_def u_fetch_data_def fetch_interval_def
  read_response_def process_reading_def py_ne_def py_not_def py_setitem_def patch_z_def
  track_consumption_def track_reading_def dt_lt_def dt_gt_def aware_def instant_def

lemmas iso_defs = isoformat_ms_def ord2ymd_def fmt_d_def fmt_offset_def showdec.simps
  DAYS_BEFORE_MONTH_def DAYS_IN_MONTH_def Let_def

lemma first_date_run:
  "u_get_first_reading_date E_meter M_mid S_tok W0 =
     (Inr (Some (day 738886 (Some 0))), M_mid\<lparr>first_reading_date := Some (day 738886 (Some 0))\<rparr>, S_tok,
      \<lparr>posts = [\<lparr>req_path = ''getMeterReadingMetaData'', req_payload = PDict [(PStr ''meterPointId'', PNum 7)],
                  req_authorization = Some ''Bearer new''\<rparr>], ticks = 2\<rparr>)"
  by (simp add: run_defs E_meter_def meta0_def M_mid_def S_tok_def test_defs)

lemma replicate_numeral: "replicate (numeral k) x = x # replicate (pred_numeral k) x"
  by (simp add: numeral_eq_Suc)

lemma iso_start: "isoformat_ms (day 738886 (Some 0)) = ''2024-01-01T00:00:00.000+00:00''"
  by (simp add: iso_defs day_def replicate_numeral)

lemma iso_end: "isoformat_ms (end0\<lparr>hour := 0, minute := 0\<rparr>) = ''2024-01-10T00:00:07.123+00:00''"
  by (simp add: iso_defs day_def end0_def replicate_numeral)


text \<open>
  Claim C5. A meter whose mode is neither \<^verbatim>\<open>OptMiddle\<close> nor \<^verbatim>\<open>OptIn\<close> returns \<open>PNone\<close> from
  \<open>u_fetch_data\<close> and leaves the meter, the session and the world as they were: no
  request is posted. In the two other modes, once the first reading date is resolved
  and compared with the start, every \<^verbatim>\<open>getMeterReading\<close> request posted by the call has
  the payload with the unit \<^verbatim>\<open>KWH\<close>, the interval (\<^verbatim>\<open>Daily\<close> for \<^verbatim>\<open>OptMiddle\<close>,
  \<^verbatim>\<open>QuarterHourly\<close> for \<^verbatim>\<open>OptIn\<close>), the meter id, the start (replaced by the first reading
  date when it precedes it) and the end (with hour and minute set to zero for
  \<^verbatim>\<open>OptMiddle\<close>, unchanged for \<^verbatim>\<open>OptIn\<close>), both in ISO format; and when the call returns
  without an exception such a request was posted. The ISO format keeps the milliseconds
  and nothing below them: the text does not depend on the microseconds below the
  millisecond, and its fraction has three digits.
\<close>

theorem fetch_data_request:
  "(opt_state m \<noteq> PStr ''OptMiddle'' \<longrightarrow> opt_state m \<noteq> PStr ''OptIn'' \<longrightarrow>
        u_fetch_data e startTime endTime m s w = (Inr PNone, m, s, w))
   \<and> ((opt_state m = PStr ''OptMiddle'' \<or> opt_state m = PStr ''OptIn'') \<longrightarrow>
        u_get_first_reading_date e m s w = (Inr (Some first), m1, s1, w1) \<longrightarrow>
        dt_lt startTime first = Inr early \<longrightarrow>
        u_fetch_data e startTime endTime m s w = (r, m2, s2, w2) \<longrightarrow>
        (\<exists>new. posts w2 = posts w1 @ new
           \<and> (\<forall>req\<in>set new. req_path req = ''getMeterReading'' \<longrightarrow>
                req_payload req =
                  PDict [(PStr ''unitOfConsump'', PStr ''KWH''),
                         (PStr ''interval'',
                            PStr (if opt_state m = PStr ''OptMiddle'' then ''Daily'' else ''QuarterHourly'')),
                         (PStr ''meterPointId'', meter_id m),
                         (PStr ''fromDate'', PStr (isoformat_ms (if early then first else startTime))),
                         (PStr ''toDate'',
                            PStr (isoformat_ms (if opt_state m = PStr ''OptMiddle''
                                                then endTime\<lparr>hour := 0, minute := 0\<rparr> else endTime)))])
           \<and> ((\<exists>x. r = Inr x) \<longrightarrow> (\<exists>req\<in>set new. req_path req = ''getMeterReading''))))
   \<and> isoformat_ms (d\<lparr>microsecond := microsecond d - microsecond d mod 1000\<rparr>) = isoformat_ms d
   \<and> (0 \<le> microsecond d \<longrightarrow> microsecond d < 1000000 \<longrightarrow>
        length (fmt_d 3 (microsecond d div 1000)) = 3
        \<and> (\<exists>pre. isoformat_ms d = pre @ ''.'' @ fmt_d 3 (microsecond d div 1000) @ fmt_offset (tzinfo d)))"
proof (intro conjI impI)
  assume "opt_state m \<noteq> PStr ''OptMiddle''" "opt_state m \<noteq> PStr ''OptIn''"
  then show "u_fetch_data e startTime endTime m s w = (Inr PNone, m, s, w)"
    by (simp add: u_fetch_data_def)
next
  assume mode: "opt_state m = PStr ''OptMiddle'' \<or> opt_state m = PStr ''OptIn''"
    and fr: "u_get_first_reading_date e m s w = (Inr (Some first), m1, s1, w1)"
    and lt: "dt_lt startTime first = Inr early"
    and fd: "u_fetch_data e startTime endTime m s w = (r, m2, s2, w2)"
  show "\<exists>new. posts w2 = posts w1 @ new
           \<and> (\<forall>req\<in>set new. req_path req = ''getMeterReading'' \<longrightarrow>
                req_payload req =
                  PDict [(PStr ''unitOfConsump'', PStr ''KWH''),
                         (PStr ''interval'',
                            PStr (if opt_state m = PStr ''OptMiddle'' then ''Daily'' else ''QuarterHourly'')),
                         (PStr ''meterPointId'', meter_id m),
                         (PStr ''fromDate'', PStr (isoformat_ms (if early then first else startTime))),
                         (PStr ''toDate'',
                            PStr (isoformat_ms (if opt_state m = PStr ''OptMiddle''
                                                then endTime\<lparr>hour := 0, minute := 0\<rparr> else endTime)))])
           \<and> ((\<exists>x. r = Inr x) \<longrightarrow> (\<exists>req\<in>set new. req_path req = ''getMeterReading''))"
  proof (cases "opt_state m = PStr ''OptMiddle''")
    case True
    with fd have "fetch_interval e ''Daily'' startTime (endTime\<lparr>hour := 0, minute := 0\<rparr>) m s w = (r, m2, s2, w2)"
      by (simp add: u_fetch_data_def)
    from fetch_interval_request[OF fr lt this] True show ?thesis by simp
  next
    case False
    with mode fd have "fetch_interval e ''QuarterHourly'' startTime endTime m s w = (r, m2, s2, w2)"
      by (simp add: u_fetch_data_def)
    from fetch_interval_request[OF fr lt this] False show ?thesis by simp
  qed
next
  have "(microsecond d - microsecond d mod 1000) div 1000 = microsecond d div 1000"
    by (metis minus_mod_eq_div_mult nonzero_mult_div_cancel_right zero_neq_numeral)
  then show "isoformat_ms (d\<lparr>microsecond := microsecond d - microsecond d mod 1000\<rparr>) = isoformat_ms d"
    by (simp add: isoformat_ms_def)
next
  assume "0 \<le> microsecond d" "microsecond d < 1000000"
  then show "length (fmt_d 3 (microsecond d div 1000)) = 3"
    by (intro fmt_d_3) auto
next
  show "\<exists>pre. isoformat_ms d = pre @ ''.'' @ fmt_d 3 (microsecond d div 1000) @ fmt_offset (tzinfo d)"
    by (auto simp: isoformat_ms_def split: prod.splits)
qed


lemma fetch_mid_run:
  "\<exists>r m2 s2 w2. u_fetch_data E_meter start0 end0 M_mid S_tok W0 = (Inr r, m2, s2, w2)"
  by (simp add: run_defs E_meter_def meta0_def readings0_def M_mid_def S_tok_def start0_def end0_def test_defs)

theorem fetch_data_request_witness:
  "u_fetch_data E_meter start0 end0 (M0\<lparr>opt_state := PStr ''OptOut''\<rparr>) S_tok W0
     = (Inr PNone, M0\<lparr>opt_state := PStr ''OptOut''\<rparr>, S_tok, W0)
   \<and> (\<exists>r m2 s2 w2 new.
         u_fetch_data E_meter start0 end0 M_mid S_tok W0 = (Inr r, m2, s2, w2)
       \<and> posts w2 = \<lparr>req_path = ''getMeterReadingMetaData'', req_payload = PDict [(PStr ''meterPointId'', PNum 7)],
                      req_authorization = Some ''Bearer new''\<rparr> # new
       \<and> (\<forall>req\<in>set new. req_path req = ''getMeterReading'' \<longrightarrow>
             req_payload req =
               PDict [(PStr ''unitOfConsump'', PStr ''KWH''),
                      (PStr ''interval'', PStr ''Daily''),
                      (PStr ''meterPointId'', PNum 7),
                      (PStr ''fromDate'', PStr ''2024-01-01T00:00:00.000+00:00''),
                      (PStr ''toDate'', PStr ''2024-01-10T00:00:07.123+00:00'')])
       \<and> (\<exists>req\<in>set new. req_path req = ''getMeterReading''))
   \<and> length (fmt_d 3 (microsecond end0 div 1000)) = 3"
proof -
  have a: "u_fetch_data E_meter start0 end0 (M0\<lparr>opt_state := PStr ''OptOut''\<rparr>) S_tok W0
     = (Inr PNone, M0\<lparr>opt_state := PStr ''OptOut''\<rparr>, S_tok, W0)"
    using fetch_data_request[of "M0\<lparr>opt_state := PStr ''OptOut''\<rparr>", THEN conjunct1]
    by (simp add: M0_def)
  have c: "length (fmt_d 3 (microsecond end0 div 1000)) = 3"
    using fetch_data_request[of _ _ _ _ _ _ _ _ _ _ _ _ _ _ _ end0, THEN conjunct2, THEN conjunct2, THEN conjunct2]
    by (simp add: end0_def)
  from fetch_mid_run obtain r m2 s2 w2 where
    fd: "u_fetch_data E_meter start0 end0 M_mid S_tok W0 = (Inr r, m2, s2, w2)" by blast
  have lt: "dt_lt start0 (day 738886 (Some 0)) = Inr True"
    by (simp add: dt_lt_def aware_def instant_def start0_def day_def)
  have md: "opt_state M_mid = PStr ''OptMiddle'' \<or> opt_state M_mid = PStr ''OptIn''"
    by (simp add: M_mid_def)
  have md': "opt_state M_mid = PStr ''OptMiddle''" by (simp add: M_mid_def)
  have mid: "meter_id M_mid = PNum 7" by (simp add: M_mid_def M0_def)
  from fetch_data_request[THEN conjunct2, THEN conjunct1, rule_format, OF md first_date_run lt fd]
  have "\<exists>new. posts w2 = [\<lparr>req_path = ''getMeterReadingMetaData'', req_payload = PDict [(PStr ''meterPointId'', PNum 7)],
                  req_authorization = Some ''Bearer new''\<rparr>] @ new
           \<and> (\<forall>req\<in>set new. req_path req = ''getMeterReading'' \<longrightarrow>
                req_payload req =
                  PDict [(PStr ''unitOfConsump'', PStr ''KWH''),
                         (PStr ''interval'', PStr ''Daily''),
                         (PStr ''meterPointId'', PNum 7),
                         (PStr ''fromDate'', PStr ''2024-01-01T00:00:00.000+00:00''),
                         (PStr ''toDate'', PStr ''2024-01-10T00:00:07.123+00:00'')])
           \<and> (\<exists>req\<in>set new. req_path req = ''getMeterReading'')"
    by (simp only: md' mid simp_thms if_True iso_start iso_end) simp
  then obtain new where n: "posts w2 = [\<lparr>req_path = ''getMeterReadingMetaData'', req_payload = PDict [(PStr ''meterPointId'', PNum 7)],
                  req_authorization = Some ''Bearer new''\<rparr>] @ new
           \<and> (\<forall>req\<in>set new. req_path req = ''getMeterReading'' \<longrightarrow>
                req_payload req =
                  PDict [(PStr ''unitOfConsump'', PStr ''KWH''),
                         (PStr ''interval'', PStr ''Daily''),
                         (PStr ''meterPointId'', PNum 7),
                         (PStr ''fromDate'', PStr ''2024-01-01T00:00:00.000+00:00''),
                         (PStr ''toDate'', PStr ''2024-01-10T00:00:07.123+00:00'')])
           \<and> (\<exists>req\<in>set new. req_path req = ''getMeterReading'')"
    ..
  have b: "\<exists>r m2 s2 w2 new.
         u_fetch_data E_meter start0 end0 M_mid S_tok W0 = (Inr r, m2, s2, w2)
       \<and> posts w2 = \<lparr>req_path = ''getMeterReadingMetaData'', req_payload = PDict [(PStr ''meterPointId'', PNum 7)],
                      req_authorization = Some ''Bearer new''\<rparr> # new
       \<and> (\<forall>req\<in>set new. req_path req = ''getMeterReading'' \<longrightarrow>
             req_payload req =
               PDict [(PStr ''unitOfConsump'', PStr ''KWH''),
                      (PStr ''interval'', PStr ''Daily''),
                      (PStr ''meterPointId'', PNum 7),
                      (PStr ''fromDate'', PStr ''2024-01-01T00:00:00.000+00:00''),
                      (PStr ''toDate'', PStr ''2024-01-10T00:00:07.123+00:00'')])
       \<and> (\<exists>req\<in>set new. req_path req = ''getMeterReading'')"
    apply (rule exI[of _ r], rule exI[of _ m2], rule exI[of _ s2], rule exI[of _ w2], rule exI[of _ new])
    using fd n by simp
  from a b c show ?thesis by (intro conjI)
qed


section \<open>The last value trackers\<close>

lemma tracker_le_refl: "tracker_le a a"
  by (simp add: tracker_le_def split: option.splits)

lemma tracker_le_trans: "tracker_le a b \<Longrightarrow> tracker_le b c \<Longrightarrow> tracker_le a c"
  by (auto simp: tracker_le_def split: option.splits)

lemma trackers_le_refl: "trackers_le m m"
  by (simp add: trackers_le_def tracker_le_refl)

lemma trackers_le_trans: "trackers_le a b \<Longrightarrow> trackers_le b c \<Longrightarrow> trackers_le a c"
  by (auto simp: trackers_le_def intro: tracker_le_trans)

lemma track_consumption_step:
  assumes "track_consumption res t m = (r, m')"
  shows "tracker_le (last_consumption_date m) (last_consumption_date m')
       \<and> last_reading_date m' = last_reading_date m \<and> last_reading m' = last_reading m
       \<and> (last_consumption_date m' \<noteq> last_consumption_date m \<or> last_consumption m' \<noteq> last_consumption m \<longrightarrow>
            (last_consumption_date m = None \<or> (\<exists>l. last_consumption_date m = Some l \<and> dt_gt t l = Inr True))
            \<and> last_consumption_date m' = Some t
            \<and> map_of res (PStr ''CONSUMP'') = Some (last_consumption m'))
       \<and> (r = Inr () \<longrightarrow> map_of res (PStr ''CONSUMP'') \<noteq> None \<longrightarrow>
            tracker_le (Some t) (last_consumption_date m'))"
  using assms
  by (auto simp: track_consumption_def tracker_le_def dt_gt_def
           split: option.splits sum.splits bool.splits if_splits)

lemma track_reading_step:
  assumes "track_reading res t m = (r, m')"
  shows "tracker_le (last_reading_date m) (last_reading_date m')
       \<and> last_consumption_date m' = last_consumption_date m \<and> last_consumption m' = last_consumption m
       \<and> (last_reading_date m' \<noteq> last_reading_date m \<or> last_reading m' \<noteq> last_reading m \<longrightarrow>
            (last_reading_date m = None \<or> (\<exists>l. last_reading_date m = Some l \<and> dt_gt t l = Inr True))
            \<and> last_reading_date m' = Some t
            \<and> map_of res (PStr ''MR'') = Some (last_reading m'))
       \<and> (r = Inr () \<longrightarrow> map_of res (PStr ''MR'') \<noteq> None \<longrightarrow>
            tracker_le (Some t) (last_reading_date m'))"
  using assms
  by (auto simp: track_reading_def tracker_le_def dt_gt_def
           split: option.splits sum.splits bool.splits if_splits)

lemma process_reading_trackers:
  assumes "process_reading e reading m = (r, m')"
  shows "trackers_le m m'
       \<and> (\<forall>rec. r = Inr (Some rec) \<longrightarrow>
             seen_le ''CONSUMP'' rec (last_consumption_date m') \<and> seen_le ''MR'' rec (last_reading_date m'))"
proof (cases "\<exists>rvl rvs res d d' t. py_get reading ''readingValues'' = Inr rvl \<and> py_iter rvl = Inr rvs
        \<and> values_loop rvs [] = Inr res \<and> res \<noteq> [] \<and> py_get reading ''readTime'' = Inr d
        \<and> patch_z d = Inr d' \<and> py_fromisoformat e d' = Inr t")
  case False
  with assms have "m' = m \<and> (\<forall>rec. r \<noteq> Inr (Some rec))"
    by (auto simp: process_reading_def split: sum.splits if_splits)
  then show ?thesis by (simp add: trackers_le_refl)
next
  case True
  then obtain rvl rvs res d d' t where h: "py_get reading ''readingValues'' = Inr rvl" "py_iter rvl = Inr rvs"
        "values_loop rvs [] = Inr res" "res \<noteq> []" "py_get reading ''readTime'' = Inr d"
        "patch_z d = Inr d'" "py_fromisoformat e d' = Inr t" by blast
  let ?res = "AList.update (PStr ''readingValues'') rvl (AList.update (PStr ''readTime'') (PDate t) res)"
  obtain r1 m1 where c: "track_consumption ?res t m = (r1, m1)" by (cases "track_consumption ?res t m") auto
  obtain r2 m2 where g: "track_reading ?res t m1 = (r2, m2)" by (cases "track_reading ?res t m1") auto
  note cs = track_consumption_step[OF c] and gs = track_reading_step[OF g]
  have rt: "map_of ?res (PStr ''readTime'') = Some (PDate t)" by (simp add: update_conv')
  show ?thesis
  proof (cases r1)
    case (Inl err)
    with assms h c have "m' = m1" "r = Inl err" by (simp_all add: process_reading_def)
    with cs show ?thesis by (simp add: trackers_le_def tracker_le_refl)
  next
    case r1: (Inr u)
    show ?thesis
    proof (cases r2)
      case (Inl err)
      with assms h c g r1 have "m' = m2" "r = Inl err" by (simp_all add: process_reading_def)
      with cs gs show ?thesis by (simp add: trackers_le_def)
    next
      case (Inr u2)
      with assms h c g r1 have "m' = m2" "r = Inr (Some (PDict ?res))" by (simp_all add: process_reading_def)
      with cs gs r1 Inr rt show ?thesis
        by (auto simp: trackers_le_def seen_le_def split: option.splits)
    qed
  qed
qed

lemma seen_le_mono: "seen_le k rec a \<Longrightarrow> tracker_le a b \<Longrightarrow> seen_le k rec b"
  by (auto simp: seen_le_def split: pyval.splits option.splits intro: tracker_le_trans)

lemma all_seen_mono: "all_seen recs m \<Longrightarrow> trackers_le m m' \<Longrightarrow> all_seen recs m'"
  by (auto simp: all_seen_def trackers_le_def intro: seen_le_mono)

lemma readings_loop_trackers:
  "readings_loop e rs acc m = (r, m') \<Longrightarrow> all_seen acc m \<Longrightarrow>
     trackers_le m m' \<and> (\<forall>result. r = Inr result \<longrightarrow> all_seen result m')"
proof (induction rs arbitrary: acc m)
  case Nil
  then show ?case by (auto simp: trackers_le_refl)
next
  case (Cons reading rs)
  obtain r1 m1 where p: "process_reading e reading m = (r1, m1)" by (cases "process_reading e reading m") auto
  note pt = process_reading_trackers[OF p]
  show ?case
  proof (cases r1)
    case (Inl err)
    with Cons.prems p pt show ?thesis by auto
  next
    case (Inr x)
    show ?thesis
    proof (cases x)
      case None
      with Cons.prems p Inr have l: "readings_loop e rs acc m1 = (r, m')" by simp
      from all_seen_mono[OF Cons.prems(2)] pt have "all_seen acc m1" by simp
      from Cons.IH[OF l this] pt show ?thesis by (auto intro: trackers_le_trans)
    next
      case (Some rec)
      with Cons.prems p Inr have l: "readings_loop e rs (acc @ [rec]) m1 = (r, m')" by simp
      from all_seen_mono[OF Cons.prems(2)] pt have "all_seen acc m1" by simp
      with pt Inr Some have "all_seen (acc @ [rec]) m1" by (auto simp: all_seen_def)
      from Cons.IH[OF l this] pt show ?thesis by (auto intro: trackers_le_trans)
    qed
  qed
qed

lemma u_get_first_reading_date_meter:
  "u_get_first_reading_date e m s w = (r, m1, s1, w1) \<Longrightarrow>
     m1 = m \<or> (\<exists>d. first_reading_date m = None \<and> r = Inr (Some d) \<and> m1 = m\<lparr>first_reading_date := Some d\<rparr>)"
  by (auto simp: u_get_first_reading_date_def split: option.splits prod.splits sum.splits if_splits)

lemma read_response_trackers:
  assumes "read_response e resp m = (r, m')"
  shows "trackers_le m m' \<and> (\<forall>recs. r = Inr (PList recs) \<longrightarrow> all_seen recs m')"
proof (cases "\<exists>readings rs. resp \<noteq> PNone \<and> py_not (py_get resp ''readings'') = Inr False
                \<and> py_get resp ''readings'' = Inr readings \<and> py_iter readings = Inr rs")
  case False
  with assms have "m' = m \<and> (\<forall>recs. r \<noteq> Inr (PList recs))"
    by (auto simp: read_response_def split: if_splits sum.splits bool.splits)
  then show ?thesis by (simp add: trackers_le_refl)
next
  case True
  then obtain readings rs where h: "resp \<noteq> PNone" "py_not (py_get resp ''readings'') = Inr False"
     "py_get resp ''readings'' = Inr readings" "py_iter readings = Inr rs" by blast
  obtain r1 m1 where l: "readings_loop e rs [] m = (r1, m1)" by (cases "readings_loop e rs [] m") auto
  have "all_seen [] m" by (simp add: all_seen_def)
  from readings_loop_trackers[OF l this] assms h l show ?thesis
    by (cases r1) (auto simp: read_response_def)
qed

lemma fetch_interval_trackers:
  assumes "fetch_interval e interval st en m s w = (r, m', s', w')"
  shows "trackers_le m m' \<and> (\<forall>recs. r = Inr (PList recs) \<longrightarrow> all_seen recs m')"
proof -
  obtain r1 m1 s1 w1 where f: "u_get_first_reading_date e m s w = (r1, m1, s1, w1)"
    using prod_cases4 by blast
  from u_get_first_reading_date_meter[OF f] have t1: "trackers_le m m1"
    by (auto simp: trackers_le_def tracker_le_refl)
  show ?thesis
  proof (cases "\<exists>first early resp s2 w2. r1 = Inr (Some first) \<and> dt_lt st first = Inr early \<and>
       query e ''getMeterReading''
             (PDict [(PStr ''unitOfConsump'', PStr ''KWH''),
                     (PStr ''interval'', PStr interval),
                     (PStr ''meterPointId'', meter_id m1),
                     (PStr ''fromDate'', PStr (isoformat_ms (if early then first else st))),
                     (PStr ''toDate'', PStr (isoformat_ms en))]) s1 w1 = (Inr resp, s2, w2)")
    case False
    with assms f have "m' = m1 \<and> (\<forall>recs. r \<noteq> Inr (PList recs))"
      by (auto simp: fetch_interval_def split: sum.splits option.splits prod.splits)
    with t1 show ?thesis by simp
  next
    case True
    then obtain first early resp s2 w2 where h: "r1 = Inr (Some first)" "dt_lt st first = Inr early"
      "query e ''getMeterReading''
             (PDict [(PStr ''unitOfConsump'', PStr ''KWH''),
                     (PStr ''interval'', PStr interval),
                     (PStr ''meterPointId'', meter_id m1),
                     (PStr ''fromDate'', PStr (isoformat_ms (if early then first else st))),
                     (PStr ''toDate'', PStr (isoformat_ms en))]) s1 w1 = (Inr resp, s2, w2)" by blast
    obtain r2 m2 where rr: "read_response e resp m1 = (r2, m2)" by (cases "read_response e resp m1") auto
    from assms f h rr have "r = r2" "m' = m2" by (simp_all add: fetch_interval_def)
    with read_response_trackers[OF rr] t1 show ?thesis by (auto intro: trackers_le_trans)
  qed
qed

lemma u_fetch_data_trackers:
  assumes "u_fetch_data e st en m s w = (r, m', s', w')"
  shows "trackers_le m m' \<and> (\<forall>recs. r = Inr (PList recs) \<longrightarrow> all_seen recs m')"
  using assms fetch_interval_trackers
  by (auto simp: u_fetch_data_def trackers_le_refl split: if_splits)

lemma fetch_consumption_data_trackers:
  assumes "fetch_consumption_data e days m s w = (r, m', s', w')"
  shows "trackers_le m m'"
proof (cases "time_window e days s w")
  case (Pair x w1)
  show ?thesis
  proof (cases x)
    case (Inl err)
    with assms Pair show ?thesis by (simp add: fetch_consumption_data_def trackers_le_refl)
  next
    case (Inr se)
    obtain st en where se: "se = (st, en)" by (cases se) auto
    obtain r1 m1 s1 w2 where f: "u_fetch_data e st en m s w1 = (r1, m1, s1, w2)" using prod_cases4 by blast
    from assms Pair Inr se f have "last_consumption_date m' = last_consumption_date m1"
       "last_reading_date m' = last_reading_date m1"
      by (auto simp: fetch_consumption_data_def split: sum.splits if_splits)
    with u_fetch_data_trackers[OF f] show ?thesis by (simp add: trackers_le_def)
  qed
qed

lemma get_historic_data_trackers:
  assumes "get_historic_data e days m s w = (r, m', s', w')"
  shows "trackers_le m m' \<and> (\<forall>recs. r = Inr (PList recs) \<longrightarrow> all_seen recs m')"
proof (cases "time_window e days s w")
  case (Pair x w1)
  show ?thesis
  proof (cases x)
    case (Inl err)
    with assms Pair show ?thesis by (auto simp: get_historic_data_def trackers_le_refl)
  next
    case (Inr se)
    obtain st en where se: "se = (st, en)" by (cases se) auto
    obtain r1 m1 s1 w2 where f: "u_fetch_data e st en m s w1 = (r1, m1, s1, w2)" using prod_cases4 by blast
    from assms Pair Inr se f have "m' = m1" "r = r1"
      by (auto simp: get_historic_data_def split: sum.splits if_splits)
    with u_fetch_data_trackers[OF f] show ?thesis by simp
  qed
qed

lemma first_reading_loop_trackers:
  "first_reading_loop e st en m s w = (r, m', s', w') \<Longrightarrow> trackers_le m m'"
proof (induction e st en m s w rule: first_reading_loop.induct)
  case (1 e startTime endTime m s w)
  obtain r1 m1 s1 w1 where f: "u_fetch_data e startTime endTime m s w = (r1, m1, s1, w1)"
    using prod_cases4 by blast
  note t1 = u_fetch_data_trackers[OF f, THEN conjunct1]
  show ?case
  proof (cases "\<exists>resp st' en'. r1 = Inr resp \<and> resp \<noteq> PNone \<and> add_days startTime 7 = Inr st'
                  \<and> add_days st' 7 = Inr en' \<and> py_len resp = Inr 0")
    case False
    with "1.prems" f have "m' = m1"
      by (subst (asm) first_reading_loop.simps) (auto split: sum.splits if_splits)
    with t1 show ?thesis by simp
  next
    case True
    then obtain resp st' en' where h: "r1 = Inr resp" "resp \<noteq> PNone" "add_days startTime 7 = Inr st'"
       "add_days st' 7 = Inr en'" "py_len resp = Inr 0" by blast
    from "1.prems" f h have l: "first_reading_loop e st' en' m1 s1 w1 = (r, m', s', w')"
      by (subst (asm) first_reading_loop.simps) simp
    have "trackers_le m1 m'"
      by (rule "1.IH"[OF f[symmetric] h(1) refl refl h(2) h(3) h(4) h(5) refl l])
    with t1 show ?thesis by (rule trackers_le_trans)
  qed
qed

lemma get_first_reading_trackers:
  assumes "get_first_reading e m s w = (r, m', s', w')"
  shows "trackers_le m m'"
proof (cases "truthy (first_reading m)")
  case True
  with assms show ?thesis by (simp add: get_first_reading_def trackers_le_refl)
next
  case False
  obtain r1 m1 s1 w1 where f: "u_get_first_reading_date e m s w = (r1, m1, s1, w1)"
    using prod_cases4 by blast
  from u_get_first_reading_date_meter[OF f] have t1: "trackers_le m m1"
    by (auto simp: trackers_le_def tracker_le_refl)
  show ?thesis
  proof (cases "\<exists>st en. r1 = Inr (Some st) \<and> add_days st 7 = Inr en")
    case no: False
    with assms False f have "m' = m1"
      by (auto simp: get_first_reading_def split: sum.splits option.splits)
    with t1 show ?thesis by simp
  next
    case True
    then obtain st en where h: "r1 = Inr (Some st)" "add_days st 7 = Inr en" by blast
    obtain r2 m2 s2 w2 where l: "first_reading_loop e st en m1 s1 w1 = (r2, m2, s2, w2)"
      using prod_cases4 by blast
    from assms False f h l have "last_consumption_date m' = last_consumption_date m2"
       "last_reading_date m' = last_reading_date m2"
      by (auto simp: get_first_reading_def split: sum.splits if_splits bool.splits)
    with first_reading_loop_trackers[OF l] t1 show ?thesis
      by (auto simp: trackers_le_def intro: tracker_le_trans)
  qed
qed

lemma run_op_trackers: "run_op e x (m, s, w) = (m', s', w') \<Longrightarrow> trackers_le m m'"
proof (cases x)
  case (FetchConsumptionData days)
  assume "run_op e x (m, s, w) = (m', s', w')"
  with FetchConsumptionData show ?thesis
    using fetch_consumption_data_trackers[of e days m s w "fst (fetch_consumption_data e days m s w)" m' s' w']
    by (cases "fetch_consumption_data e days m s w") simp
next
  case (GetHistoricData days)
  assume "run_op e x (m, s, w) = (m', s', w')"
  with GetHistoricData show ?thesis
    using get_historic_data_trackers[of e days m s w "fst (get_historic_data e days m s w)" m' s' w']
    by (cases "get_historic_data e days m s w") simp
next
  case GetFirstReading
  assume "run_op e x (m, s, w) = (m', s', w')"
  with GetFirstReading show ?thesis
    using get_first_reading_trackers[of e m s w "fst (get_first_reading e m s w)" m' s' w']
    by (cases "get_first_reading e m s w") simp
next
  case (FetchData st en)
  assume "run_op e x (m, s, w) = (m', s', w')"
  with FetchData show ?thesis
    using u_fetch_data_trackers[of e st en m s w "fst (u_fetch_data e st en m s w)" m' s' w']
    by (cases "u_fetch_data e st en m s w") simp
qed

lemma run_ops_trackers: "run_ops e ops (m, s, w) = (m', s', w') \<Longrightarrow> trackers_le m m'"
proof (induction ops arbitrary: m s w)
  case Nil
  then show ?case by (simp add: trackers_le_refl)
next
  case (Cons x xs)
  obtain m1 s1 w1 where o: "run_op e x (m, s, w) = (m1, s1, w1)" using prod_cases3 by blast
  with Cons.prems have "run_ops e xs (m1, s1, w1) = (m', s', w')" by simp
  from Cons.IH[OF this] run_op_trackers[OF o] show ?case by (rule trackers_le_trans[rotated])
qed


text \<open>
  Claim C4. Each of the two updates of the trackers changes its own tracker only, and only
  when the record has the entry (\<^verbatim>\<open>CONSUMP\<close> or \<^verbatim>\<open>MR\<close>) and its timestamp is newer than
  the cached one (or nothing is cached); it then stores the timestamp and the value of
  that record together. Over any sequence of operations on one meter, each tracker's
  timestamp never becomes older. Every record returned by a call of the fetch
  primitive that has the entry has a timestamp not newer than the tracker, and this
  stays so after any further operations on the meter.
\<close>

theorem trackers_monotonic:
  "(track_consumption res t m = (r, m1) \<longrightarrow>
       (last_consumption_date m1 \<noteq> last_consumption_date m \<or> last_consumption m1 \<noteq> last_consumption m \<longrightarrow>
          (last_consumption_date m = None \<or> (\<exists>l. last_consumption_date m = Some l \<and> dt_gt t l = Inr True))
          \<and> last_consumption_date m1 = Some t
          \<and> map_of res (PStr ''CONSUMP'') = Some (last_consumption m1))
       \<and> last_reading_date m1 = last_reading_date m \<and> last_reading m1 = last_reading m)
   \<and> (track_reading res t m = (r, m2) \<longrightarrow>
       (last_reading_date m2 \<noteq> last_reading_date m \<or> last_reading m2 \<noteq> last_reading m \<longrightarrow>
          (last_reading_date m = None \<or> (\<exists>l. last_reading_date m = Some l \<and> dt_gt t l = Inr True))
          \<and> last_reading_date m2 = Some t
          \<and> map_of res (PStr ''MR'') = Some (last_reading m2))
       \<and> last_consumption_date m2 = last_consumption_date m \<and> last_consumption m2 = last_consumption m)
   \<and> (run_ops e ops (m, s, w) = (m', s', w') \<longrightarrow>
         tracker_le (last_consumption_date m) (last_consumption_date m')
       \<and> tracker_le (last_reading_date m) (last_reading_date m'))
   \<and> (u_fetch_data e startTime endTime m s w = (Inr (PList recs), ma, sa, wa) \<longrightarrow>
       run_ops e ops (ma, sa, wa) = (m', s', w') \<longrightarrow>
         (\<forall>rec\<in>set recs. seen_le ''CONSUMP'' rec (last_consumption_date m')
                       \<and> seen_le ''MR'' rec (last_reading_date m')))"
proof (intro conjI impI)
  assume a: "u_fetch_data e startTime endTime m s w = (Inr (PList recs), ma, sa, wa)"
     and b: "run_ops e ops (ma, sa, wa) = (m', s', w')"
  from u_fetch_data_trackers[OF a] have "all_seen recs ma" by simp
  from all_seen_mono[OF this run_ops_trackers[OF b]]
  show "\<forall>rec\<in>set recs. seen_le ''CONSUMP'' rec (last_consumption_date m')
                       \<and> seen_le ''MR'' rec (last_reading_date m')"
    by (simp add: all_seen_def)
qed (use track_consumption_step[of res t m r m1] track_reading_step[of res t m r m2]
         run_ops_trackers[of e ops m s w m' s' w'] in \<open>simp_all add: trackers_le_def\<close>)


lemmas window_defs = time_window_def utcnow_def utcfromtimestamp_def add_days_def MAXORDINAL_def Let_def

lemma fetch_one_run:
  "\<exists>w1. u_fetch_data E_two start0 end0 M_mid S_tok W0 = (Inr (PList [record0]), M_one, S_tok, w1)"
  by (simp add: run_defs E_two_def meta0_def readings0_def record0_def M_one_def M_mid_def S_tok_def
        start0_def end0_def test_defs)

lemma fetch_two_run:
  "\<exists>s2 w2. run_ops E_two [FetchData start0 end0, GetHistoricData 30] (M_mid, S_tok, W0) = (M_two, s2, w2)"
  by (simp add: run_defs get_historic_data_def window_defs E_two_def meta0_def readings0_def readings1_def
        M_two_def M_one_def M_mid_def S_tok_def start0_def end0_def test_defs)

theorem trackers_monotonic_witness:
  "(\<exists>w1 s2 w2. u_fetch_data E_two start0 end0 M_mid S_tok W0 = (Inr (PList [record0]), M_one, S_tok, w1)
       \<and> run_ops E_two [GetHistoricData 30] (M_one, S_tok, w1) = (M_two, s2, w2))
   \<and> tracker_le (last_consumption_date M_mid) (last_consumption_date M_two)
   \<and> tracker_le (last_reading_date M_mid) (last_reading_date M_two)
   \<and> seen_le ''CONSUMP'' record0 (last_consumption_date M_two)
   \<and> seen_le ''MR'' record0 (last_reading_date M_two)
   \<and> last_consumption_date M_two = Some (day 738890 (Some 0)) \<and> last_consumption M_two = PNum 5
   \<and> dt_gt (day 738891 (Some 0)) (day 738890 (Some 0)) = Inr True"
proof -
  from fetch_one_run obtain w1 where
    a: "u_fetch_data E_two start0 end0 M_mid S_tok W0 = (Inr (PList [record0]), M_one, S_tok, w1)" ..
  from fetch_two_run obtain s2 w2 where
    b: "run_ops E_two [FetchData start0 end0, GetHistoricData 30] (M_mid, S_tok, W0) = (M_two, s2, w2)"
    by blast
  from a b have c: "run_ops E_two [GetHistoricData 30] (M_one, S_tok, w1) = (M_two, s2, w2)" by simp
  have d: "track_consumption [(PStr ''CONSUMP'', PNum 8)] (day 738891 (Some 0)) M_one
        = (Inr (), M_one\<lparr>last_consumption_date := Some (day 738891 (Some 0)), last_consumption := PNum 8\<rparr>)"
    by (simp add: track_consumption_def dt_gt_def aware_def instant_def M_one_def day_def)
  have lc: "last_consumption_date M_one = Some (day 738890 (Some 0))" by (simp add: M_one_def)
  have e1: "dt_gt (day 738891 (Some 0)) (day 738890 (Some 0)) = Inr True"
    using trackers_monotonic[THEN conjunct1, rule_format, OF d, THEN conjunct1] lc
    by (simp add: day_def)
  from trackers_monotonic[THEN conjunct2, THEN conjunct2, THEN conjunct1, rule_format, OF b]
  have e2: "tracker_le (last_consumption_date M_mid) (last_consumption_date M_two)
          \<and> tracker_le (last_reading_date M_mid) (last_reading_date M_two)" .
  from trackers_monotonic[THEN conjunct2, THEN conjunct2, THEN conjunct2, rule_format, OF a c]
  have e3: "seen_le ''CONSUMP'' record0 (last_consumption_date M_two)
          \<and> seen_le ''MR'' record0 (last_reading_date M_two)" by simp
  have e4: "last_consumption_date M_two = Some (day 738890 (Some 0)) \<and> last_consumption M_two = PNum 5"
    by (simp add: M_two_def M_one_def)
  from a c have e0: "\<exists>w1 s2 w2. u_fetch_data E_two start0 end0 M_mid S_tok W0 = (Inr (PList [record0]), M_one, S_tok, w1)
       \<and> run_ops E_two [GetHistoricData 30] (M_one, S_tok, w1) = (M_two, s2, w2)" by blast
  from e0 e1 e2 e3 e4 show ?thesis by simp
qed


section \<open>What a fetch leaves alone\<close>

lemma frame_refl: "frame m m"
  by (simp add: frame_def split: option.splits)

lemma frame_trans: "frame a b \<Longrightarrow> frame b c \<Longrightarrow> frame a c"
  by (auto simp: frame_def split: option.splits)

lemma track_consumption_frame: "track_consumption res t m = (r, m') \<Longrightarrow> frame m m'"
  by (auto simp: track_consumption_def frame_def split: option.splits sum.splits bool.splits)

lemma track_reading_frame: "track_reading res t m = (r, m') \<Longrightarrow> frame m m'"
  by (auto simp: track_reading_def frame_def split: option.splits sum.splits bool.splits)

lemma process_reading_frame:
  assumes "process_reading e reading m = (r, m')"
  shows "frame m m'"
proof (cases "\<exists>rvl rvs res d d' t. py_get reading ''readingValues'' = Inr rvl \<and> py_iter rvl = Inr rvs
        \<and> values_loop rvs [] = Inr res \<and> res \<noteq> [] \<and> py_get reading ''readTime'' = Inr d
        \<and> patch_z d = Inr d' \<and> py_fromisoformat e d' = Inr t")
  case False
  with assms have "m' = m"
    by (auto simp: process_reading_def split: sum.splits if_splits)
  then show ?thesis by (simp add: frame_refl)
next
  case True
  then obtain rvl rvs res d d' t where h: "py_get reading ''readingValues'' = Inr rvl" "py_iter rvl = Inr rvs"
        "values_loop rvs [] = Inr res" "res \<noteq> []" "py_get reading ''readTime'' = Inr d"
        "patch_z d = Inr d'" "py_fromisoformat e d' = Inr t" by blast
  let ?res = "AList.update (PStr ''readingValues'') rvl (AList.update (PStr ''readTime'') (PDate t) res)"
  obtain r1 m1 where c: "track_consumption ?res t m = (r1, m1)" by (cases "track_consumption ?res t m") auto
  obtain r2 m2 where g: "track_reading ?res t m1 = (r2, m2)" by (cases "track_reading ?res t m1") auto
  note cs = track_consumption_frame[OF c] and gs = track_reading_frame[OF g]
  from assms h c g have "m' = m1 \<or> m' = m2"
    by (cases r1; cases r2) (simp_all add: process_reading_def)
  with cs frame_trans[OF cs gs] show ?thesis by auto
qed

lemma readings_loop_frame:
  "readings_loop e rs acc m = (r, m') \<Longrightarrow> frame m m'"
proof (induction rs arbitrary: acc m)
  case Nil
  then show ?case by (simp add: frame_refl)
next
  case (Cons reading rs)
  obtain r1 m1 where p: "process_reading e reading m = (r1, m1)" by (cases "process_reading e reading m") auto
  note pf = process_reading_frame[OF p]
  show ?case
  proof (cases r1)
    case (Inl err)
    with Cons.prems p pf show ?thesis by auto
  next
    case (Inr x)
    with Cons.prems p obtain acc' where "readings_loop e rs acc' m1 = (r, m')"
      by (cases x) auto
    from Cons.IH[OF this] pf show ?thesis by (rule frame_trans[rotated])
  qed
qed

lemma read_response_frame:
  assumes "read_response e resp m = (r, m')"
  shows "frame m m'"
proof (cases "\<exists>readings rs. resp \<noteq> PNone \<and> py_not (py_get resp ''readings'') = Inr False
                \<and> py_get resp ''readings'' = Inr readings \<and> py_iter readings = Inr rs")
  case False
  with assms have "m' = m"
    by (auto simp: read_response_def split: if_splits sum.splits bool.splits)
  then show ?thesis by (simp add: frame_refl)
next
  case True
  then obtain readings rs where h: "resp \<noteq> PNone" "py_not (py_get resp ''readings'') = Inr False"
     "py_get resp ''readings'' = Inr readings" "py_iter readings = Inr rs" by blast
  obtain r1 m1 where l: "readings_loop e rs [] m = (r1, m1)" by (cases "readings_loop e rs [] m") auto
  from assms h l have "m' = m1" by (cases r1) (auto simp: read_response_def)
  with readings_loop_frame[OF l] show ?thesis by simp
qed

lemma u_get_first_reading_date_frame:
  "u_get_first_reading_date e m s w = (r, m1, s1, w1) \<Longrightarrow> frame m m1"
  by (auto simp: u_get_first_reading_date_def frame_def split: option.splits prod.splits sum.splits if_splits)

lemma fetch_interval_frame:
  assumes "fetch_interval e interval st en m s w = (r, m', s', w')"
  shows "frame m m'"
proof -
  obtain r1 m1 s1 w1 where f: "u_get_first_reading_date e m s w = (r1, m1, s1, w1)"
    using prod_cases4 by blast
  note t1 = u_get_first_reading_date_frame[OF f]
  show ?thesis
  proof (cases "\<exists>first early resp s2 w2. r1 = Inr (Some first) \<and> dt_lt st first = Inr early \<and>
       query e ''getMeterReading''
             (PDict [(PStr ''unitOfConsump'', PStr ''KWH''),
                     (PStr ''interval'', PStr interval),
                     (PStr ''meterPointId'', meter_id m1),
                     (PStr ''fromDate'', PStr (isoformat_ms (if early then first else st))),
                     (PStr ''toDate'', PStr (isoformat_ms en))]) s1 w1 = (Inr resp, s2, w2)")
    case False
    with assms f have "m' = m1"
      by (auto simp: fetch_interval_def split: sum.splits option.splits prod.splits)
    with t1 show ?thesis by simp
  next
    case True
    then obtain first early resp s2 w2 where h: "r1 = Inr (Some first)" "dt_lt st first = Inr early"
      "query e ''getMeterReading''
             (PDict [(PStr ''unitOfConsump'', PStr ''KWH''),
                     (PStr ''interval'', PStr interval),
                     (PStr ''meterPointId'', meter_id m1),
                     (PStr ''fromDate'', PStr (isoformat_ms (if early then first else st))),
                     (PStr ''toDate'', PStr (isoformat_ms en))]) s1 w1 = (Inr resp, s2, w2)" by blast
    obtain r2 m2 where rr: "read_response e resp m1 = (r2, m2)" by (cases "read_response e resp m1") auto
    from assms f h rr have "m' = m2" by (simp_all add: fetch_interval_def)
    with read_response_frame[OF rr] t1 show ?thesis by (auto intro: frame_trans)
  qed
qed

lemma u_fetch_data_frame:
  "u_fetch_data e st en m s w = (r, m', s', w') \<Longrightarrow> frame m m'"
  using fetch_interval_frame
  by (auto simp: u_fetch_data_def frame_refl split: if_splits)


lemma historic_run:
  "\<exists>w1. get_historic_data E_two 30 M_mid S_tok W0 = (Inr (PList [record0]), M_one, S_tok, w1)"
  by (simp add: run_defs get_historic_data_def window_defs E_two_def meta0_def readings0_def record0_def
        M_one_def M_mid_def S_tok_def test_defs)

text \<open>
  A call of \<open>get_historic_data\<close> on a meter that has fetched nothing yet: the call returns
  the record of 2024-01-05, and the tracker of the last consumption, empty before, holds
  the value 5 of that record afterwards.
\<close>

theorem get_historic_data_counterexample:
  "fst (get_historic_data E_two 30 M_mid S_tok W0) = Inr (PList [record0])
   \<and> last_consumption M_mid = PNone
   \<and> last_consumption (fst (snd (get_historic_data E_two 30 M_mid S_tok W0))) = PNum 5
   \<and> last_consumption_date M_mid = None
   \<and> last_consumption_date (fst (snd (get_historic_data E_two 30 M_mid S_tok W0))) = Some (day 738890 (Some 0))
   \<and> last_consumption (fst (snd (get_historic_data E_two 30 M_mid S_tok W0))) \<noteq> last_consumption M_mid"
proof -
  from historic_run obtain w1 where
    "get_historic_data E_two 30 M_mid S_tok W0 = (Inr (PList [record0]), M_one, S_tok, w1)" ..
  then show ?thesis by (simp add: M_one_def M_mid_def M0_def)
qed

text \<open>
  Claim C7, amended. \<open>get_historic_data\<close> returns what the fetch primitive returns for
  the window, and does not change the cached \<^verbatim>\<open>_data\<close> nor the cached first reading. The
  two trackers are updated by the fetched records as in every fetch, so their
  timestamps may move forward and never move back; a first reading date that was
  resolved before the call is kept.
\<close>

theorem get_historic_data_frame:
  assumes "get_historic_data e days m s w = (r, m', s', w')"
  shows "data m' = data m \<and> first_reading m' = first_reading m
       \<and> tracker_le (last_consumption_date m) (last_consumption_date m')
       \<and> tracker_le (last_reading_date m) (last_reading_date m')
       \<and> (\<forall>d. first_reading_date m = Some d \<longrightarrow> first_reading_date m' = Some d)
       \<and> (\<forall>startTime endTime w1. time_window e days s w = (Inr (startTime, endTime), w1) \<longrightarrow>
             get_historic_data e days m s w = u_fetch_data e startTime endTime m s w1)"
proof -
  have direct: "\<forall>startTime endTime w1. time_window e days s w = (Inr (startTime, endTime), w1) \<longrightarrow>
             get_historic_data e days m s w = u_fetch_data e startTime endTime m s w1"
    by (auto simp: get_historic_data_def split: prod.splits sum.splits)
  have fr: "frame m m'"
  proof (cases "time_window e days s w")
    case (Pair x w1)
    show ?thesis
    proof (cases x)
      case (Inl err)
      with assms Pair show ?thesis by (auto simp: get_historic_data_def frame_refl)
    next
      case (Inr se)
      obtain st en where se: "se = (st, en)" by (cases se) auto
      from direct Pair Inr se assms have "u_fetch_data e st en m s w1 = (r, m', s', w')" by simp
      then show ?thesis by (rule u_fetch_data_frame)
    qed
  qed
  from get_historic_data_trackers[OF assms] have "trackers_le m m'" by simp
  with fr direct show ?thesis
    by (simp add: frame_def trackers_le_def split: option.splits)
qed

theorem get_historic_data_frame_witness:
  "fst (get_historic_data E_two 30 M_mid S_tok W0) = Inr (PList [record0])
   \<and> data (fst (snd (get_historic_data E_two 30 M_mid S_tok W0))) = PNone
   \<and> first_reading (fst (snd (get_historic_data E_two 30 M_mid S_tok W0))) = PNone
   \<and> tracker_le None (last_consumption_date (fst (snd (get_historic_data E_two 30 M_mid S_tok W0))))"
proof -
  from historic_run obtain w1 where
    h: "get_historic_data E_two 30 M_mid S_tok W0 = (Inr (PList [record0]), M_one, S_tok, w1)" ..
  from get_historic_data_frame[OF h] h show ?thesis
    by (simp add: M_mid_def M0_def)
qed


section \<open>The first reading\<close>

lemma first_reading_date_cached:
  "first_reading_date m = Some d \<Longrightarrow> u_get_first_reading_date e m s w = (Inr (Some d), m, s, w)"
  by (simp add: u_get_first_reading_date_def)

lemma zero_run_first:
  "\<exists>m1 w1. get_first_reading E_zero M0 S_tok W0 = (Inr (PNum 0), m1, S_tok, w1)
      \<and> first_reading m1 = PNum 0
      \<and> map req_path (posts w1) = [''getMeterReadingMetaData'', ''getMeterReading'']"
  by (simp add: run_defs get_first_reading_def first_reading_loop.simps add_days_def MAXORDINAL_def
        E_zero_def meta0_def readings_zero_def S_tok_def test_defs)

lemma zero_run_second:
  "\<exists>m2 w2. run_ops E_zero [GetFirstReading, GetFirstReading] (M0, S_tok, W0) = (m2, S_tok, w2)
      \<and> first_reading m2 = PNum 100
      \<and> map req_path (posts w2) = [''getMeterReadingMetaData'', ''getMeterReading'', ''getMeterReading'']"
  by (simp add: run_defs get_first_reading_def first_reading_loop.simps add_days_def MAXORDINAL_def
        E_zero_def meta0_def readings_zero_def readings1_def S_tok_def test_defs)

text \<open>
  Claim C8, on a meter whose first absolute reading is 0. The first call of
  \<open>get_first_reading\<close> asks for the metadata and for the readings, returns 0 and stores 0
  in the slot of the first reading. A second call does not return the stored value: it
  asks for the readings again and replaces the slot by the reading the server returns
  then (100). The date of the first reading is not asked for again.
\<close>

theorem first_reading_zero_is_fetched_again:
  "fst (get_first_reading E_zero M0 S_tok W0) = Inr (PNum 0)
   \<and> first_reading (fst (run_ops E_zero [GetFirstReading] (M0, S_tok, W0))) = PNum 0
   \<and> map req_path (posts (snd (snd (run_ops E_zero [GetFirstReading] (M0, S_tok, W0)))))
       = [''getMeterReadingMetaData'', ''getMeterReading'']
   \<and> first_reading (fst (run_ops E_zero [GetFirstReading, GetFirstReading] (M0, S_tok, W0))) = PNum 100
   \<and> map req_path (posts (snd (snd (run_ops E_zero [GetFirstReading, GetFirstReading] (M0, S_tok, W0)))))
       = [''getMeterReadingMetaData'', ''getMeterReading'', ''getMeterReading'']"
proof -
  from zero_run_first obtain m1 w1 where
    a: "get_first_reading E_zero M0 S_tok W0 = (Inr (PNum 0), m1, S_tok, w1)"
       "first_reading m1 = PNum 0"
       "map req_path (posts w1) = [''getMeterReadingMetaData'', ''getMeterReading'']" by auto
  from zero_run_second obtain m2 w2 where
    b: "run_ops E_zero [GetFirstReading, GetFirstReading] (M0, S_tok, W0) = (m2, S_tok, w2)"
       "first_reading m2 = PNum 100"
       "map req_path (posts w2) = [''getMeterReadingMetaData'', ''getMeterReading'', ''getMeterReading'']"
    by auto
  from a have c: "run_ops E_zero [GetFirstReading] (M0, S_tok, W0) = (m1, S_tok, w1)" by simp
  show ?thesis
    by (simp only: a b c fst_conv snd_conv simp_thms)
qed



section \<open>The scan for the first reading\<close>





























end
